theory Spec2Isabelle
  imports Complex_Main "HOL-Library.Multiset" "HOL-Library.Product_Lexorder"
begin

section \<open>Text\<close>

text \<open>
  The matching engine of \<^verbatim>\<open>backend/main.py\<close> works on Python \<^verbatim>\<open>str\<close> values. A string is
  modelled as a \<^typ>\<open>string\<close> whose characters are the code points 0 to 255; the three
  character classes the code relies on (Unicode whitespace as seen by \<^verbatim>\<open>\s\<close>,
  \<^verbatim>\<open>str.split\<close> and \<^verbatim>\<open>str.strip\<close>; word characters as seen by \<^verbatim>\<open>\w\<close>; the letters
  changed by \<^verbatim>\<open>str.lower\<close>) are written out for that range. The classifier is stated on
  this text. The section on text beyond Latin-1 adds the Greek letters on which
  \<^verbatim>\<open>str.lower\<close> depends on the neighbours of a character; every other code point from 256
  on is outside the model.
\<close>

definition is_space :: "char \<Rightarrow> bool" where
  "is_space c =
     (let n = (of_char c :: nat)
      in (9 \<le> n \<and> n \<le> 13) \<or> (28 \<le> n \<and> n \<le> 32) \<or> n = 133 \<or> n = 160)"

definition is_word :: "char \<Rightarrow> bool" where
  "is_word c =
     (let n = (of_char c :: nat)
      in (48 \<le> n \<and> n \<le> 57) \<or> (65 \<le> n \<and> n \<le> 90) \<or> n = 95 \<or> (97 \<le> n \<and> n \<le> 122)
         \<or> n = 170 \<or> n = 178 \<or> n = 179 \<or> n = 181 \<or> n = 185 \<or> n = 186
         \<or> (188 \<le> n \<and> n \<le> 190) \<or> (192 \<le> n \<and> n \<le> 214) \<or> (216 \<le> n \<and> n \<le> 246)
         \<or> 248 \<le> n)"

definition lower_char :: "char \<Rightarrow> char" where
  "lower_char c =
     (let n = (of_char c :: nat)
      in if (65 \<le> n \<and> n \<le> 90) \<or> (192 \<le> n \<and> n \<le> 214) \<or> (216 \<le> n \<and> n \<le> 222)
         then char_of (n + 32) else c)"

text \<open>\<^verbatim>\<open>s.lower()\<close>: on these code points, character by character.\<close>

definition lower :: "string \<Rightarrow> string" where
  "lower s = map lower_char s"

text \<open>\<^verbatim>\<open>s.strip()\<close>: whitespace is dropped at both ends.\<close>

definition strip :: "string \<Rightarrow> string" where
  "strip s = rev (dropWhile is_space (rev (dropWhile is_space s)))"

text \<open>\<^verbatim>\<open>re.sub(r'\s+', ' ', s)\<close>: every maximal run of whitespace becomes one blank.\<close>

function collapse_ws :: "string \<Rightarrow> string" where
  "collapse_ws [] = []"
| "collapse_ws (c # cs) =
     (if is_space c then CHR '' '' # collapse_ws (dropWhile is_space cs)
      else c # collapse_ws cs)"
  by pat_completeness auto
termination
  by (relation "measure length") (auto simp: length_dropWhile_le less_Suc_eq_le)

text \<open>\<^verbatim>\<open>s.split()\<close>: the maximal runs of non-whitespace, in order; never an empty token.\<close>

function py_split :: "string \<Rightarrow> string list" where
  "py_split s =
     (case dropWhile is_space s of
        [] \<Rightarrow> []
      | c # cs \<Rightarrow> takeWhile (\<lambda>x. \<not> is_space x) (c # cs)
                 # py_split (dropWhile (\<lambda>x. \<not> is_space x) (c # cs)))"
  by pat_completeness auto
termination
proof (relation "measure length", goal_cases)
  case 1
  show ?case by simp
next
  case (2 s c cs)
  have c: "\<not> is_space c"
    using 2 hd_dropWhile [of is_space s] by (metis list.sel(1) list.distinct(1))
  have "length (dropWhile (\<lambda>x. \<not> is_space x) cs) \<le> length cs"
    by (rule length_dropWhile_le)
  moreover have "length (c # cs) \<le> length s"
    using 2 length_dropWhile_le [of is_space s] by simp
  ultimately show ?case using c by simp
qed

declare py_split.simps [simp del]

section \<open>Tokenizer\<close>

text \<open>
  \<^verbatim>\<open>normalize_string\<close>: lowercase, delete what is neither a word character nor whitespace
  (\<^verbatim>\<open>re.sub(r'[^\w\s]', '', s)\<close>), collapse whitespace, strip. The \<^verbatim>\<open>isinstance\<close> guard
  cannot fail on a string.
\<close>

definition normalize_string :: "string \<Rightarrow> string" where
  "normalize_string s =
     (let s = lower s;
          s = filter (\<lambda>c. is_word c \<or> is_space c) s;
          s = strip (collapse_ws s)
      in s)"

definition stop_words :: "string set" where
  "stop_words = {''feat'', ''featuring'', ''ft'', ''ft.'', ''vs'', ''vs.'', ''with'', ''and'',
                 ''&'', ''x''}"

text \<open>\<^verbatim>\<open>list(dict.fromkeys(xs))\<close>: duplicates removed, first occurrences kept in order.\<close>

definition dict_fromkeys :: "'a list \<Rightarrow> 'a list" where
  "dict_fromkeys xs = rev (remdups (rev xs))"

text \<open>
  \<^verbatim>\<open>create_token_set(title, artist, album)\<close>. The arguments are strings here; a caller that
  holds \<^verbatim>\<open>None\<close> gets the \<^verbatim>\<open>x or ''\<close> of the source through \<open>or_empty\<close> below.
\<close>

definition create_token_set :: "string \<Rightarrow> string \<Rightarrow> string \<Rightarrow> string set" where
  "create_token_set title artist album =
     (let combined = strip (title @ '' '' @ artist @ '' '' @ album)
      in if combined = [] then {}
         else
           let combined = filter (\<lambda>c. c \<notin> set ''()[]'') combined;
               normalized = normalize_string combined;
               tokens = py_split normalized;
               filtered_tokens = filter (\<lambda>token. token \<noteq> [] \<and> token \<notin> stop_words) tokens;
               unique_tokens = dict_fromkeys filtered_tokens
           in set unique_tokens)"

text \<open>Punctuation, in the words of the specification: neither a word character nor whitespace.\<close>

definition is_punctuation :: "char \<Rightarrow> bool" where
  "is_punctuation c = (\<not> is_word c \<and> \<not> is_space c)"

section \<open>Text beyond Latin-1\<close>

text \<open>
  On the code points 0 to 255 \<^verbatim>\<open>str.lower\<close> changes a string character by character, as
  \<^const>\<open>lower\<close> does. On Unicode text it does not: CPython lowercases the Greek capital sigma
  (U+03A3) by \<^verbatim>\<open>handle_capital_sigma\<close>, which looks at the characters around it. To cover
  that, the tokenizer is given a second time, on text that may also hold the Greek letters
  capital alpha (U+0391), capital sigma (U+03A3), small alpha (U+03B1), small final sigma
  (U+03C2) and small sigma (U+03C3). All five are word characters and none is whitespace.
\<close>

datatype uchar =
  Latin1 char | Capital_Alpha | Capital_Sigma | Small_Alpha | Final_Sigma | Small_Sigma

type_synonym ustring = "uchar list"

definition latin1 :: "string \<Rightarrow> ustring" where
  "latin1 s = map Latin1 s"

fun is_space_u :: "uchar \<Rightarrow> bool" where
  "is_space_u (Latin1 c) = is_space c"
| "is_space_u _ = False"

fun is_word_u :: "uchar \<Rightarrow> bool" where
  "is_word_u (Latin1 c) = is_word c"
| "is_word_u _ = True"

text \<open>The lowercase of one character; for the capital sigma, the one it has on its own.\<close>

fun lower_char_u :: "uchar \<Rightarrow> uchar" where
  "lower_char_u (Latin1 c) = Latin1 (lower_char c)"
| "lower_char_u Capital_Alpha = Small_Alpha"
| "lower_char_u Capital_Sigma = Small_Sigma"
| "lower_char_u c = c"

text \<open>
  The Unicode properties Cased and Case_Ignorable, as \<^verbatim>\<open>_PyUnicode_IsCased\<close> and
  \<^verbatim>\<open>_PyUnicode_IsCaseIgnorable\<close> give them. The case-ignorable characters of the range are
  the apostrophe, full stop, colon, circumflex, grave accent, diaeresis, soft hyphen, macron,
  acute accent, middle dot and cedilla.
\<close>

fun is_cased :: "uchar \<Rightarrow> bool" where
  "is_cased (Latin1 c) =
     (let n = (of_char c :: nat)
      in (65 \<le> n \<and> n \<le> 90) \<or> (97 \<le> n \<and> n \<le> 122) \<or> n = 170 \<or> n = 181 \<or> n = 186
         \<or> (192 \<le> n \<and> n \<le> 214) \<or> (216 \<le> n \<and> n \<le> 246) \<or> 248 \<le> n)"
| "is_cased _ = True"

fun is_case_ignorable :: "uchar \<Rightarrow> bool" where
  "is_case_ignorable (Latin1 c) =
     (let n = (of_char c :: nat)
      in n = 39 \<or> n = 46 \<or> n = 58 \<or> n = 94 \<or> n = 96 \<or> n = 168 \<or> n = 173 \<or> n = 175
         \<or> n = 180 \<or> n = 183 \<or> n = 184)"
| "is_case_ignorable _ = False"

text \<open>
  \<^verbatim>\<open>handle_capital_sigma\<close>: the sigma is final when the nearest character before it that is
  not case-ignorable is cased, and the nearest such character after it, if any, is not. The
  text before the sigma is given nearest character first.
\<close>

definition cased_next :: "ustring \<Rightarrow> bool" where
  "cased_next cs = (case dropWhile is_case_ignorable cs of [] \<Rightarrow> False | c # _ \<Rightarrow> is_cased c)"

definition handle_capital_sigma :: "ustring \<Rightarrow> ustring \<Rightarrow> uchar" where
  "handle_capital_sigma preceding following =
     (if cased_next preceding \<and> \<not> cased_next following then Final_Sigma else Small_Sigma)"

text \<open>\<^verbatim>\<open>s.lower()\<close>: the loop of \<^verbatim>\<open>do_lower\<close>, with the text already passed, reversed.\<close>

fun lower_from :: "ustring \<Rightarrow> ustring \<Rightarrow> ustring" where
  "lower_from preceding [] = []"
| "lower_from preceding (c # following) =
     (if c = Capital_Sigma then handle_capital_sigma preceding following else lower_char_u c)
       # lower_from (c # preceding) following"

definition lower_u :: "ustring \<Rightarrow> ustring" where
  "lower_u s = lower_from [] s"

definition strip_u :: "ustring \<Rightarrow> ustring" where
  "strip_u s = rev (dropWhile is_space_u (rev (dropWhile is_space_u s)))"

function collapse_ws_u :: "ustring \<Rightarrow> ustring" where
  "collapse_ws_u [] = []"
| "collapse_ws_u (c # cs) =
     (if is_space_u c then Latin1 CHR '' '' # collapse_ws_u (dropWhile is_space_u cs)
      else c # collapse_ws_u cs)"
  by pat_completeness auto
termination
  by (relation "measure length") (auto simp: length_dropWhile_le less_Suc_eq_le)

function py_split_u :: "ustring \<Rightarrow> ustring list" where
  "py_split_u s =
     (case dropWhile is_space_u s of
        [] \<Rightarrow> []
      | c # cs \<Rightarrow> takeWhile (\<lambda>x. \<not> is_space_u x) (c # cs)
                 # py_split_u (dropWhile (\<lambda>x. \<not> is_space_u x) (c # cs)))"
  by pat_completeness auto
termination
proof (relation "measure length", goal_cases)
  case 1
  show ?case by simp
next
  case (2 s c cs)
  have c: "\<not> is_space_u c"
    using 2 hd_dropWhile [of is_space_u s] by (metis list.sel(1) list.distinct(1))
  have "length (dropWhile (\<lambda>x. \<not> is_space_u x) cs) \<le> length cs"
    by (rule length_dropWhile_le)
  moreover have "length (c # cs) \<le> length s"
    using 2 length_dropWhile_le [of is_space_u s] by simp
  ultimately show ?case using c by simp
qed

declare py_split_u.simps [simp del]

text \<open>\<^verbatim>\<open>normalize_string\<close> and \<^verbatim>\<open>create_token_set\<close> on this text.\<close>

definition normalize_string_u :: "ustring \<Rightarrow> ustring" where
  "normalize_string_u s =
     (let s = lower_u s;
          s = filter (\<lambda>c. is_word_u c \<or> is_space_u c) s;
          s = strip_u (collapse_ws_u s)
      in s)"

definition stop_words_u :: "ustring set" where
  "stop_words_u = latin1 ` stop_words"

definition create_token_set_u :: "ustring \<Rightarrow> ustring \<Rightarrow> ustring \<Rightarrow> ustring set" where
  "create_token_set_u title artist album =
     (let combined = strip_u (title @ latin1 '' '' @ artist @ latin1 '' '' @ album)
      in if combined = [] then {}
         else
           let combined = filter (\<lambda>c. c \<notin> set (latin1 ''()[]'')) combined;
               normalized = normalize_string_u combined;
               tokens = py_split_u normalized;
               filtered_tokens = filter (\<lambda>token. token \<noteq> [] \<and> token \<notin> stop_words_u) tokens;
               unique_tokens = dict_fromkeys filtered_tokens
           in set unique_tokens)"

text \<open>The tokenizer in the words of the specification, on this text.\<close>

definition is_bracket_u :: "uchar \<Rightarrow> bool" where
  "is_bracket_u c = (c \<in> set (latin1 ''()[]''))"

definition is_punctuation_u :: "uchar \<Rightarrow> bool" where
  "is_punctuation_u c = (\<not> is_word_u c \<and> \<not> is_space_u c)"

definition spec_token_set_u :: "ustring \<Rightarrow> ustring \<Rightarrow> ustring \<Rightarrow> ustring set" where
  "spec_token_set_u t a al =
     (let s = t @ latin1 '' '' @ a @ latin1 '' '' @ al;
          s = filter (\<lambda>c. \<not> is_bracket_u c) s;
          s = lower_u s;
          s = filter (\<lambda>c. \<not> is_punctuation_u c) s;
          s = collapse_ws_u s
      in {w \<in> set (py_split_u s). w \<noteq> [] \<and> w \<notin> stop_words_u})"

text \<open>
  The tokens of a text that is lowercased character by character and whose punctuation is
  deleted in one pass.
\<close>

definition canonical_tokens_u :: "ustring \<Rightarrow> ustring set" where
  "canonical_tokens_u s =
     {w \<in> set (py_split_u (filter (\<lambda>c. \<not> is_punctuation_u c) (map lower_char_u s))).
        w \<noteq> [] \<and> w \<notin> stop_words_u}"

section \<open>Similarity scorer\<close>

text \<open>
  \<^verbatim>\<open>subset_similarity\<close>. Python divides two integers into a float; the model keeps the
  quotient as a rational number. The thresholds it is compared with (0.4, 0.5, 0.75) order
  the floats as they order the rationals for every token set a request can hold.
\<close>

definition subset_similarity :: "'a set \<Rightarrow> 'a set \<Rightarrow> int \<Rightarrow> rat" where
  "subset_similarity source_tokens candidate_tokens min_candidate_tokens =
     (if candidate_tokens = {} then 0
      else if int (card candidate_tokens) < min_candidate_tokens then 0
      else
        let matching_tokens = card (candidate_tokens \<inter> source_tokens);
            total_candidate_tokens = card candidate_tokens
        in of_nat matching_tokens / of_nat total_candidate_tokens)"

section \<open>Data model\<close>

text \<open>
  A raw search result is a Python dict. Every provider fills \<^verbatim>\<open>title\<close>, \<^verbatim>\<open>artist\<close> and
  \<^verbatim>\<open>url\<close>; \<^verbatim>\<open>album\<close> is read with \<^verbatim>\<open>track.get('album', '')\<close>, so an absent key is the
  empty string; \<^verbatim>\<open>duration_ms\<close> and \<^verbatim>\<open>track_number\<close> are read with \<^verbatim>\<open>track.get\<close> and are
  \<open>None\<close> when absent.
\<close>

record track =
  title :: string
  artist :: string
  album :: string
  url :: string
  duration_ms :: "int option"
  track_number :: "int option"

text \<open>The arguments of \<^verbatim>\<open>find_equivalent_links\<close> that describe the source track.\<close>

record source =
  source_title :: string
  source_artist :: string
  source_duration_ms :: "int option"
  source_album :: "string option"
  source_track_number :: "int option"

text \<open>Python truthiness of an optional integer and of an optional string, and \<^verbatim>\<open>x or ''\<close>.\<close>

definition truthy_int :: "int option \<Rightarrow> bool" where
  "truthy_int x = (case x of None \<Rightarrow> False | Some n \<Rightarrow> n \<noteq> 0)"

definition truthy_str :: "string option \<Rightarrow> bool" where
  "truthy_str x = (case x of None \<Rightarrow> False | Some s \<Rightarrow> s \<noteq> [])"

definition or_empty :: "string option \<Rightarrow> string" where
  "or_empty x = (case x of None \<Rightarrow> [] | Some s \<Rightarrow> s)"

text \<open>The entries of \<^verbatim>\<open>exact_candidates\<close> and of \<^verbatim>\<open>alt_candidates\<close>.\<close>

record exact_candidate =
  ec_track :: track
  ec_similarity :: rat
  ec_duration_diff :: int
  ec_album_match :: bool
  ec_missing_data_penalty :: rat
  ec_track_number_match :: bool

record alt_candidate =
  ac_track :: track
  ac_similarity :: rat
  ac_duration_diff :: int
  ac_version_penalty :: rat
  ac_missing_data_penalty :: rat
  ac_total_penalty :: rat
  ac_service :: string

text \<open>The entries of the lists stored in the \<^verbatim>\<open>alternatives\<close> dict.\<close>

record alt_item =
  item_title :: string
  item_artist :: string
  item_album :: string
  item_url :: string
  item_durationMs :: "int option"
  item_service :: string

type_synonym links = "string \<rightharpoonup> string"
type_synonym alternatives = "string \<rightharpoonup> alt_item list"

datatype py_error = UnboundLocalError

text \<open>
  The locals of \<^verbatim>\<open>process_results\<close> that live across the iterations of its loop. The
  variable \<^verbatim>\<open>exact_duration_tolerance\<close> is assigned only inside the duration block; it is
  \<open>None\<close> here as long as no iteration of this call has assigned it.
\<close>

record classifier_state =
  exact_duration_tolerance :: "int option"
  exact_candidates :: "exact_candidate list"
  alt_candidates :: "alt_candidate list"

section \<open>Candidate classifier\<close>

definition source_exact_tokens :: "source \<Rightarrow> string set" where
  "source_exact_tokens src =
     create_token_set (source_title src) (source_artist src) (or_empty (source_album src))"

definition source_alt_tokens :: "source \<Rightarrow> string set" where
  "source_alt_tokens src = create_token_set (source_title src) (source_artist src) []"

text \<open>Lines 505 to 507.\<close>

definition track_number_match_of :: "int option \<Rightarrow> int option \<Rightarrow> bool" where
  "track_number_match_of src_number number =
     (if truthy_int src_number \<and> truthy_int number then src_number = number else False)"

text \<open>
  Lines 510 to 519: the two flags, the difference, and the value of
  \<^verbatim>\<open>exact_duration_tolerance\<close> after the block, given its value before.
\<close>

record duration_result =
  exact_duration_ok :: bool
  alt_duration_ok :: bool
  duration_diff :: int
  tolerance :: "int option"

definition check_duration ::
  "int option \<Rightarrow> int option \<Rightarrow> bool \<Rightarrow> int option \<Rightarrow> duration_result" where
  "check_duration src_duration track_duration track_number_match tolerance_before =
     (let skipped = \<lparr>exact_duration_ok = True, alt_duration_ok = True, duration_diff = 0,
                      tolerance = tolerance_before\<rparr>
      in case (src_duration, track_duration) of
           (Some s, Some t) \<Rightarrow>
             if s \<noteq> 0 \<and> t \<noteq> 0 then
               let diff = \<bar>s - t\<bar>;
                   exact_tolerance = (if track_number_match then 5000 else 1000)
               in \<lparr>exact_duration_ok = (diff \<le> exact_tolerance),
                   alt_duration_ok = (diff \<le> 10000),
                   duration_diff = diff,
                   tolerance = Some exact_tolerance\<rparr>
             else skipped
         | _ \<Rightarrow> skipped)"

text \<open>\<^verbatim>\<open>word in text\<close> on strings.\<close>

fun substring :: "string \<Rightarrow> string \<Rightarrow> bool" where
  "substring w [] = (w = [])"
| "substring w (c # cs) = (take (length w) (c # cs) = w \<or> substring w cs)"

definition version_words :: "string list" where
  "version_words = [''live'', ''remix'', ''cover'', ''acoustic'', ''demo'']"

definition has_version :: "string \<Rightarrow> bool" where
  "has_version text_lower = list_ex (\<lambda>word. substring word text_lower) version_words"

text \<open>\<^verbatim>\<open>not track_album or track_album.strip() == ''\<close>\<close>

definition album_missing :: "string \<Rightarrow> bool" where
  "album_missing track_album = (track_album = [] \<or> strip track_album = [])"

text \<open>
  One iteration of the loop of \<^verbatim>\<open>process_results\<close> (lines 489 to 586). The debug line 525
  reads \<^verbatim>\<open>exact_duration_tolerance\<close>, which raises \<^verbatim>\<open>UnboundLocalError\<close> while the variable
  has not been assigned; the other debug lines only format values that exist.
\<close>

definition classify_track ::
  "source \<Rightarrow> string \<Rightarrow> classifier_state \<Rightarrow> track \<Rightarrow> py_error + classifier_state" where
  "classify_track src service_name st trk =
     (let track_title = title trk;
          track_artist = artist trk;
          track_album = album trk;
          track_duration = duration_ms trk;
          candidate_exact_tokens = create_token_set track_title track_artist track_album;
          candidate_alt_tokens = create_token_set track_title track_artist [];
          exact_similarity = subset_similarity (source_exact_tokens src) candidate_exact_tokens 2;
          alt_similarity = subset_similarity (source_alt_tokens src) candidate_alt_tokens 2;
          track_number_match =
            track_number_match_of (source_track_number src) (track_number trk);
          d = check_duration (source_duration_ms src) track_duration track_number_match
                (exact_duration_tolerance st)
      in case tolerance d of
           None \<Rightarrow> Inl UnboundLocalError
         | Some tol \<Rightarrow>
             let st = st\<lparr>exact_duration_tolerance := Some tol\<rparr>;
                 exact_threshold = (if track_number_match then 4 / 10 else 75 / 100)
             in if exact_threshold \<le> exact_similarity \<and> exact_duration_ok d then
                  Inr (st\<lparr>exact_candidates := exact_candidates st @
                    [\<lparr>ec_track = trk,
                      ec_similarity = exact_similarity,
                      ec_duration_diff = duration_diff d,
                      ec_album_match =
                        (if truthy_str (source_album src)
                         then lower track_album = lower (or_empty (source_album src))
                         else False),
                      ec_missing_data_penalty = (if album_missing track_album then 5 / 100 else 0),
                      ec_track_number_match = track_number_match\<rparr>]\<rparr>)
                else if 1 / 2 \<le> alt_similarity \<and> alt_duration_ok d then
                  let title_lower = lower track_title;
                      source_title_lower = lower (source_title src);
                      candidate_has_version = has_version title_lower;
                      source_has_version = has_version source_title_lower;
                      version_penalty =
                        (if candidate_has_version \<and> \<not> source_has_version then 1 / 10 else 0);
                      missing_data_penalty = (if album_missing track_album then 5 / 100 else 0);
                      total_penalty = version_penalty + missing_data_penalty
                  in Inr (st\<lparr>alt_candidates := alt_candidates st @
                    [\<lparr>ac_track = trk,
                      ac_similarity = alt_similarity,
                      ac_duration_diff = duration_diff d,
                      ac_version_penalty = version_penalty,
                      ac_missing_data_penalty = missing_data_penalty,
                      ac_total_penalty = total_penalty,
                      ac_service = service_name\<rparr>]\<rparr>)
                else Inr st)"

text \<open>The loop: an exception ends it.\<close>

fun classify_all ::
  "source \<Rightarrow> string \<Rightarrow> classifier_state \<Rightarrow> track list \<Rightarrow> py_error + classifier_state" where
  "classify_all src service_name st [] = Inr st"
| "classify_all src service_name st (trk # results) =
     (case classify_track src service_name st trk of
        Inl e \<Rightarrow> Inl e
      | Inr st' \<Rightarrow> classify_all src service_name st' results)"

section \<open>Ranker\<close>

text \<open>
  \<^verbatim>\<open>max(xs, key=f)\<close> on a non-empty list: the first element whose key no later element
  exceeds. Python compares the key tuples lexicographically, \<open>False < True\<close>; so does the
  order of \<^typ>\<open>'a \<times> 'b\<close> used here.
\<close>

fun py_max :: "('a \<Rightarrow> 'k::linorder) \<Rightarrow> 'a \<Rightarrow> 'a list \<Rightarrow> 'a" where
  "py_max key best [] = best"
| "py_max key best (x # xs) = (if key best < key x then py_max key x xs else py_max key best xs)"

definition exact_key :: "exact_candidate \<Rightarrow> rat \<times> bool \<times> bool \<times> rat \<times> int" where
  "exact_key x =
     (ec_similarity x, ec_album_match x, ec_track_number_match x,
      - ec_missing_data_penalty x, - ec_duration_diff x)"

definition alt_key :: "alt_candidate \<Rightarrow> rat \<times> rat \<times> int" where
  "alt_key x = (- ac_similarity x, ac_total_penalty x, ac_duration_diff x)"

text \<open>Lines 589 to 598.\<close>

definition store_best_exact :: "string \<Rightarrow> exact_candidate list \<Rightarrow> links \<Rightarrow> links" where
  "store_best_exact service_name cands links_dict =
     (case cands of
        [] \<Rightarrow> links_dict
      | c # cs \<Rightarrow> links_dict(service_name \<mapsto> url (ec_track (py_max exact_key c cs))))"

definition to_alt_item :: "string \<Rightarrow> alt_candidate \<Rightarrow> alt_item" where
  "to_alt_item service_name candidate =
     (let trk = ac_track candidate
      in \<lparr>item_title = title trk, item_artist = artist trk, item_album = album trk,
          item_url = url trk, item_durationMs = duration_ms trk,
          item_service = service_name\<rparr>)"

text \<open>Lines 602 to 622; \<^verbatim>\<open>list.sort\<close> is stable, as \<^const>\<open>sort_key\<close> is.\<close>

definition store_alternatives ::
  "string \<Rightarrow> alt_candidate list \<Rightarrow> alternatives \<Rightarrow> alternatives" where
  "store_alternatives service_name cands alt_dict =
     (if cands = [] then alt_dict
      else alt_dict(service_name \<mapsto> map (to_alt_item service_name) (sort_key alt_key cands)))"

section \<open>Match orchestrator\<close>

text \<open>The locals at the entry of the loop.\<close>

definition initial_state :: classifier_state where
  "initial_state =
     \<lparr>exact_duration_tolerance = None, exact_candidates = [], alt_candidates = []\<rparr>"

definition process_results ::
  "source \<Rightarrow> string \<Rightarrow> track list \<Rightarrow> links \<times> alternatives
     \<Rightarrow> py_error + (links \<times> alternatives)" where
  "process_results src service_name results dicts =
     (case classify_all src service_name initial_state results of
        Inl e \<Rightarrow> Inl e
      | Inr st \<Rightarrow>
          Inr (store_best_exact service_name (exact_candidates st) (fst dicts),
               store_alternatives service_name (alt_candidates st) (snd dicts)))"

text \<open>
  \<^verbatim>\<open>find_equivalent_links\<close>. What the three \<^verbatim>\<open>search_track\<close> calls return is an argument
  here: the providers are outside the engine and never raise.
\<close>

definition find_equivalent_links ::
  "source \<Rightarrow> track list \<Rightarrow> track list \<Rightarrow> track list \<Rightarrow> py_error + (links \<times> alternatives)" where
  "find_equivalent_links src spotify_results apple_results yt_results =
     (case process_results src ''spotify'' spotify_results (Map.empty, Map.empty) of
        Inl e \<Rightarrow> Inl e
      | Inr dicts1 \<Rightarrow>
          (case process_results src ''apple'' apple_results dicts1 of
             Inl e \<Rightarrow> Inl e
           | Inr dicts2 \<Rightarrow> process_results src ''youtube'' yt_results dicts2))"

text \<open>
  The orchestrator over any list of providers, as the specification words it
  (\<^verbatim>\<open>resolve(sourceTrack, providers)\<close>): the providers are processed in order into the two
  dicts. \<^const>\<open>find_equivalent_links\<close> is the instance with the three providers of the
  source, shown below.
\<close>

fun resolve_from ::
  "source \<Rightarrow> (string \<times> track list) list \<Rightarrow> links \<times> alternatives
     \<Rightarrow> py_error + (links \<times> alternatives)" where
  "resolve_from src [] dicts = Inr dicts"
| "resolve_from src ((provider_id, results) # providers) dicts =
     (case process_results src provider_id results dicts of
        Inl e \<Rightarrow> Inl e
      | Inr dicts' \<Rightarrow> resolve_from src providers dicts')"

section \<open>The classifier in the words of the specification\<close>

text \<open>
  Names for the quantities of one iteration, used to state the properties below:
  the similarity scores, the result of the duration block (its flags and difference do not
  depend on the earlier value of the tolerance variable), whether the block runs, the track
  number match as the specification words it, and the range the data model gives a track
  number.
\<close>


definition spec_track_number_match :: "source \<Rightarrow> track \<Rightarrow> bool" where
  "spec_track_number_match src trk =
     (source_track_number src \<noteq> None \<and> track_number trk \<noteq> None
      \<and> source_track_number src = track_number trk)"

definition in_data_model :: "int option \<Rightarrow> bool" where
  "in_data_model n = (case n of None \<Rightarrow> True | Some k \<Rightarrow> 1 \<le> k)"

definition exact_similarity_of :: "source \<Rightarrow> track \<Rightarrow> rat" where
  "exact_similarity_of src trk =
     subset_similarity (source_exact_tokens src)
       (create_token_set (title trk) (artist trk) (album trk)) 2"

definition alt_similarity_of :: "source \<Rightarrow> track \<Rightarrow> rat" where
  "alt_similarity_of src trk =
     subset_similarity (source_alt_tokens src) (create_token_set (title trk) (artist trk) []) 2"

definition duration_of :: "source \<Rightarrow> track \<Rightarrow> duration_result" where
  "duration_of src trk =
     check_duration (source_duration_ms src) (duration_ms trk)
       (track_number_match_of (source_track_number src) (track_number trk)) None"

definition gate_runs :: "source \<Rightarrow> track \<Rightarrow> bool" where
  "gate_runs src trk = (truthy_int (source_duration_ms src) \<and> truthy_int (duration_ms trk))"

text \<open>What one completed iteration does, in the three branches of lines 534 to 586.\<close>

definition exact_entry :: "source \<Rightarrow> track \<Rightarrow> exact_candidate" where
  "exact_entry src trk =
     \<lparr>ec_track = trk,
      ec_similarity = exact_similarity_of src trk,
      ec_duration_diff = duration_diff (duration_of src trk),
      ec_album_match =
        (if truthy_str (source_album src)
         then lower (album trk) = lower (or_empty (source_album src)) else False),
      ec_missing_data_penalty = (if album_missing (album trk) then 5 / 100 else 0),
      ec_track_number_match =
        track_number_match_of (source_track_number src) (track_number trk)\<rparr>"

definition is_exact :: "source \<Rightarrow> track \<Rightarrow> bool" where
  "is_exact src trk =
     ((if track_number_match_of (source_track_number src) (track_number trk)
       then 4 / 10 else 75 / 100) \<le> exact_similarity_of src trk
      \<and> exact_duration_ok (duration_of src trk))"

definition is_alt :: "source \<Rightarrow> track \<Rightarrow> bool" where
  "is_alt src trk = (1 / 2 \<le> alt_similarity_of src trk \<and> alt_duration_ok (duration_of src trk))"

definition alt_entry :: "source \<Rightarrow> string \<Rightarrow> track \<Rightarrow> alt_candidate" where
  "alt_entry src svc trk =
     (let version_penalty =
            (if has_version (lower (title trk)) \<and> \<not> has_version (lower (source_title src))
             then 1 / 10 else 0);
          missing_data_penalty = (if album_missing (album trk) then 5 / 100 else 0)
      in \<lparr>ac_track = trk,
          ac_similarity = alt_similarity_of src trk,
          ac_duration_diff = duration_diff (duration_of src trk),
          ac_version_penalty = version_penalty,
          ac_missing_data_penalty = missing_data_penalty,
          ac_total_penalty = version_penalty + missing_data_penalty,
          ac_service = svc\<rparr>)"



text \<open>
  The two orders of the ranker as the specification words them: \<open>ranks_at_least b c\<close> says
  that \<open>b\<close> wins or ties against \<open>c\<close> under similarity (higher), then album match (true),
  then track number match (true), then missing-album penalty (lower), then duration
  difference (lower); \<open>listed_before a b\<close> says that \<open>a\<close> may stand before \<open>b\<close> in a list
  ascending by (minus similarity, total penalty, duration difference).
\<close>

definition ranks_at_least :: "exact_candidate \<Rightarrow> exact_candidate \<Rightarrow> bool" where
  "ranks_at_least b c =
     (ec_similarity c < ec_similarity b
      \<or> (ec_similarity c = ec_similarity b
         \<and> ((\<not> ec_album_match c \<and> ec_album_match b)
            \<or> (ec_album_match c = ec_album_match b
               \<and> ((\<not> ec_track_number_match c \<and> ec_track_number_match b)
                  \<or> (ec_track_number_match c = ec_track_number_match b
                     \<and> (ec_missing_data_penalty b < ec_missing_data_penalty c
                        \<or> (ec_missing_data_penalty b = ec_missing_data_penalty c
                           \<and> ec_duration_diff b \<le> ec_duration_diff c))))))))"

definition listed_before :: "alt_candidate \<Rightarrow> alt_candidate \<Rightarrow> bool" where
  "listed_before a b =
     (ac_similarity b < ac_similarity a
      \<or> (ac_similarity a = ac_similarity b
         \<and> (ac_total_penalty a < ac_total_penalty b
            \<or> (ac_total_penalty a = ac_total_penalty b
               \<and> ac_duration_diff a \<le> ac_duration_diff b))))"

section \<open>Example inputs\<close>

text \<open>
  The source of the specification's first scenario and some search results for it: the
  studio track, a live version without album, the same track with a blank album, one with
  a duration of 0, and a video result as the YouTube provider builds it (no album, duration
  or track number).
\<close>

definition yellow_source :: source where
  "yellow_source =
     \<lparr>source_title = ''Yellow'', source_artist = ''Coldplay'', source_duration_ms = Some 266773,
      source_album = Some ''Parachutes'', source_track_number = Some 1\<rparr>"

definition yellow_studio :: track where
  "yellow_studio =
     \<lparr>title = ''Yellow'', artist = ''Coldplay'', album = ''Parachutes'', url = ''u/studio'',
      duration_ms = Some 266000, track_number = Some 1\<rparr>"

definition yellow_live :: track where
  "yellow_live =
     \<lparr>title = ''Yellow - Live'', artist = ''Coldplay'', album = [], url = ''u/live'',
      duration_ms = Some 270000, track_number = None\<rparr>"

definition yellow_blank_album :: track where
  "yellow_blank_album =
     \<lparr>title = ''Yellow'', artist = ''Coldplay'', album = '' '', url = ''u/blank'',
      duration_ms = Some 266773, track_number = None\<rparr>"

definition yellow_zero_duration :: track where
  "yellow_zero_duration =
     \<lparr>title = ''Yellow'', artist = ''Coldplay'', album = ''Parachutes'', url = ''u/zero'',
      duration_ms = Some 0, track_number = Some 1\<rparr>"

definition yellow_video :: track where
  "yellow_video =
     \<lparr>title = ''Yellow'', artist = ''Coldplay'', album = [], url = ''u/video'',
      duration_ms = None, track_number = None\<rparr>"

text \<open>A source whose title is missing, and the title track of its album.\<close>

definition untitled_source :: source where
  "untitled_source =
     \<lparr>source_title = [], source_artist = ''Coldplay'', source_duration_ms = Some 266000,
      source_album = Some ''Parachutes'', source_track_number = None\<rparr>"

definition parachutes_track :: track where
  "parachutes_track =
     \<lparr>title = ''Parachutes'', artist = ''Coldplay'', album = ''Parachutes'', url = ''u/title'',
      duration_ms = Some 266000, track_number = None\<rparr>"

text \<open>A source with no metadata at all but a duration.\<close>

definition empty_source :: source where
  "empty_source =
     \<lparr>source_title = [], source_artist = [], source_duration_ms = Some 266000,
      source_album = None, source_track_number = None\<rparr>"

text \<open>A source whose only metadata is an artist made of punctuation.\<close>

definition punctuation_source :: source where
  "punctuation_source =
     \<lparr>source_title = [], source_artist = ''!!!'', source_duration_ms = Some 266000,
      source_album = None, source_track_number = None\<rparr>"

text \<open>Entries as the classifier builds them for these results, for the ranker.\<close>

definition studio_entry :: exact_candidate where
  "studio_entry =
     \<lparr>ec_track = yellow_studio, ec_similarity = 1, ec_duration_diff = 773,
      ec_album_match = True, ec_missing_data_penalty = 0, ec_track_number_match = True\<rparr>"

definition blank_entry :: exact_candidate where
  "blank_entry =
     \<lparr>ec_track = yellow_blank_album, ec_similarity = 1, ec_duration_diff = 0,
      ec_album_match = False, ec_missing_data_penalty = 5 / 100,
      ec_track_number_match = False\<rparr>"

definition live_entry :: alt_candidate where
  "live_entry =
     \<lparr>ac_track = yellow_live, ac_similarity = 2 / 3, ac_duration_diff = 3227,
      ac_version_penalty = 1 / 10, ac_missing_data_penalty = 5 / 100,
      ac_total_penalty = 15 / 100, ac_service = ''spotify''\<rparr>"

definition video_entry :: alt_candidate where
  "video_entry =
     \<lparr>ac_track = yellow_video, ac_similarity = 1, ac_duration_diff = 0,
      ac_version_penalty = 0, ac_missing_data_penalty = 5 / 100,
      ac_total_penalty = 5 / 100, ac_service = ''spotify''\<rparr>"

text \<open>
  Four Greek titles: capital alpha, capital sigma, hyphen, capital alpha; the same without
  the hyphen; with the last alpha in parentheses; and that one in small letters, as
  \<^verbatim>\<open>str.lower\<close> returns it.
\<close>

definition greek_hyphenated :: ustring where
  "greek_hyphenated = [Capital_Alpha, Capital_Sigma, Latin1 CHR ''-'', Capital_Alpha]"

definition greek_plain :: ustring where
  "greek_plain = [Capital_Alpha, Capital_Sigma, Capital_Alpha]"

definition greek_bracketed :: ustring where
  "greek_bracketed = [Capital_Alpha, Capital_Sigma, Latin1 CHR ''('', Capital_Alpha, Latin1 CHR '')'']"

definition greek_bracketed_small :: ustring where
  "greek_bracketed_small = [Small_Alpha, Final_Sigma, Latin1 CHR ''('', Small_Alpha, Latin1 CHR '')'']"

section \<open>Properties of the similarity scorer\<close>

lemma subset_similarity_range:
  "0 \<le> subset_similarity A B m \<and> subset_similarity A B m \<le> 1"
proof (cases "card B = 0")
  case True
  then show ?thesis by (simp add: subset_similarity_def Let_def)
next
  case False
  then have fin: "finite B" and pos: "0 < card B"
    by (auto intro: card_ge_0_finite)
  have "card (B \<inter> A) \<le> card B"
    using fin by (simp add: card_mono)
  then have "(of_nat (card (B \<inter> A)) :: rat) \<le> of_nat (card B)"
    by simp
  with pos show ?thesis
    by (simp add: subset_similarity_def Let_def divide_le_eq_1)
qed

text \<open>
  C3. With the default \<open>min_candidate_tokens = 2\<close>: the score is 0 when the candidate set is
  empty or has fewer than two tokens, whatever the source set; otherwise it is
  \<open>|B \<inter> A| / |B|\<close>; it is 1 when the candidate set is contained in the source set and
  has at least two tokens; and it always lies between 0 and 1.
\<close>

theorem subset_similarity_spec:
  "(B = {} \<or> card B < 2 \<longrightarrow> subset_similarity A B 2 = 0)
   \<and> (\<not> (B = {} \<or> card B < 2) \<longrightarrow>
        subset_similarity A B 2 = of_nat (card (B \<inter> A)) / of_nat (card B))
   \<and> (B \<subseteq> A \<and> 2 \<le> card B \<longrightarrow> subset_similarity A B 2 = 1)
   \<and> 0 \<le> subset_similarity A B 2 \<and> subset_similarity A B 2 \<le> 1"
proof -
  have small: "B = {} \<or> card B < 2 \<longrightarrow> subset_similarity A B 2 = 0"
    by (auto simp: subset_similarity_def)
  have ratio: "\<not> (B = {} \<or> card B < 2) \<longrightarrow>
      subset_similarity A B 2 = of_nat (card (B \<inter> A)) / of_nat (card B)"
    by (auto simp: subset_similarity_def Let_def)
  have full: "B \<subseteq> A \<and> 2 \<le> card B \<longrightarrow> subset_similarity A B 2 = 1"
  proof
    assume h: "B \<subseteq> A \<and> 2 \<le> card B"
    then have "B \<inter> A = B" by blast
    with h show "subset_similarity A B 2 = 1"
      by (auto simp: subset_similarity_def Let_def)
  qed
  from small ratio full subset_similarity_range [of A B 2] show ?thesis
    by blast
qed

theorem subset_similarity_spec_witness:
  "subset_similarity {''yellow'', ''coldplay'', ''parachutes''} {''yellow''} 2 = 0
   \<and> subset_similarity {''yellow'', ''coldplay''} {''yellow'', ''live'', ''coldplay''} 2 = 2 / 3
   \<and> subset_similarity {''yellow'', ''coldplay'', ''parachutes''} {''yellow'', ''coldplay''} 2 = 1"
proof -
  have a: "subset_similarity {''yellow'', ''coldplay'', ''parachutes''} {''yellow''} 2 = 0"
    using subset_similarity_spec [of "{''yellow''}" "{''yellow'', ''coldplay'', ''parachutes''}"]
    by simp
  have i: "{''yellow'', ''live'', ''coldplay''} \<inter> {''yellow'', ''coldplay''}
           = {''yellow'', ''coldplay''}"
    by auto
  have b: "subset_similarity {''yellow'', ''coldplay''} {''yellow'', ''live'', ''coldplay''} 2
           = 2 / 3"
    using subset_similarity_spec [of "{''yellow'', ''live'', ''coldplay''}"
        "{''yellow'', ''coldplay''}"]
    by (simp add: i)
  have c: "subset_similarity {''yellow'', ''coldplay'', ''parachutes''}
             {''yellow'', ''coldplay''} 2 = 1"
    using subset_similarity_spec [of "{''yellow'', ''coldplay''}"
        "{''yellow'', ''coldplay'', ''parachutes''}"]
    by simp
  from a b c show ?thesis by simp
qed

section \<open>Properties of the tokenizer\<close>

lemma of_char_less_256: "(of_char c :: nat) < 256"
  by (metis of_char_mod_256 mod_less_divisor zero_less_numeral)

lemma is_space_lower [simp]: "is_space (lower_char c) = is_space c"
  using of_char_less_256 [of c] by (auto simp: is_space_def lower_char_def Let_def)

lemma is_word_lower [simp]: "is_word (lower_char c) = is_word c"
  using of_char_less_256 [of c] by (auto simp: is_word_def lower_char_def Let_def)

lemma is_space_blank [simp]: "is_space (CHR '' '')"
  by (simp add: is_space_def)

lemma py_split_Nil [simp]: "py_split [] = []"
  by (simp add: py_split.simps)

lemma py_split_Cons:
  "py_split (c # cs) =
     (if is_space c then py_split cs
      else (c # takeWhile (\<lambda>x. \<not> is_space x) cs)
             # py_split (dropWhile (\<lambda>x. \<not> is_space x) cs))"
proof (cases "is_space c")
  case True
  then show ?thesis
    using py_split.simps [of "c # cs"] py_split.simps [of cs] by simp
next
  case False
  then show ?thesis
    using py_split.simps [of "c # cs"] by simp
qed

lemma strip_eq_Nil: "strip s = [] \<longleftrightarrow> (\<forall>c \<in> set s. is_space c)"
proof -
  have "strip s = [] \<longleftrightarrow> (\<forall>c \<in> set (dropWhile is_space s). is_space c)"
    by (simp add: strip_def)
  also have "\<dots> \<longleftrightarrow> (\<forall>c \<in> set s. is_space c)"
  proof
    assume h: "\<forall>c \<in> set (dropWhile is_space s). is_space c"
    show "\<forall>c \<in> set s. is_space c"
    proof
      fix c assume "c \<in> set s"
      then have "c \<in> set (takeWhile is_space s) \<or> c \<in> set (dropWhile is_space s)"
        by (metis Un_iff set_append takeWhile_dropWhile_id)
      then show "is_space c" using h by (auto dest: set_takeWhileD)
    qed
  next
    assume "\<forall>c \<in> set s. is_space c"
    then show "\<forall>c \<in> set (dropWhile is_space s). is_space c"
      by (auto dest: set_dropWhileD)
  qed
  finally show ?thesis .
qed

lemma set_dict_fromkeys [simp]: "set (dict_fromkeys xs) = set xs"
  by (simp add: dict_fromkeys_def)

text \<open>\<^const>\<open>substring\<close> is Python's \<^verbatim>\<open>in\<close> on strings.\<close>

lemma take_prefix_iff: "take (length w) s = w \<longleftrightarrow> (\<exists>q. s = w @ q)"
  by (metis append_eq_conv_conj append_take_drop_id)

lemma substring_iff: "substring w s \<longleftrightarrow> (\<exists>p q. s = p @ w @ q)"
proof (induction s)
  case Nil
  then show ?case by auto
next
  case (Cons c cs)
  have "(\<exists>p q. c # cs = p @ w @ q) \<longleftrightarrow> (\<exists>q. c # cs = w @ q) \<or> (\<exists>p q. cs = p @ w @ q)"
  proof
    assume "\<exists>p q. c # cs = p @ w @ q"
    then obtain p q where pq: "c # cs = p @ w @ q" by blast
    show "(\<exists>q. c # cs = w @ q) \<or> (\<exists>p q. cs = p @ w @ q)"
    proof (cases p)
      case Nil
      with pq show ?thesis by auto
    next
      case (Cons x xs)
      with pq have "cs = xs @ w @ q" by simp
      then show ?thesis by blast
    qed
  next
    assume "(\<exists>q. c # cs = w @ q) \<or> (\<exists>p q. cs = p @ w @ q)"
    then show "\<exists>p q. c # cs = p @ w @ q"
    proof
      assume "\<exists>q. c # cs = w @ q"
      then obtain q where "c # cs = [] @ w @ q" by auto
      then show ?thesis by blast
    next
      assume "\<exists>p q. cs = p @ w @ q"
      then obtain p q where "c # cs = (c # p) @ w @ q" by auto
      then show ?thesis by blast
    qed
  qed
  with Cons.IH show ?case
    by (simp only: substring.simps take_prefix_iff)
qed

lemma has_version_iff:
  "has_version s \<longleftrightarrow> (\<exists>w \<in> set version_words. \<exists>p q. s = p @ w @ q)"
  by (simp only: has_version_def list_ex_iff substring_iff)

text \<open>The token sets and text tests of the example inputs.\<close>

lemma yellow_tokens:
  "create_token_set ''Yellow'' ''Coldplay'' ''Parachutes'' = {''yellow'', ''coldplay'', ''parachutes''}"
  "create_token_set ''Yellow'' ''Coldplay'' [] = {''yellow'', ''coldplay''}"
  "create_token_set ''Yellow - Live'' ''Coldplay'' [] = {''yellow'', ''live'', ''coldplay''}"
  "create_token_set ''Yellow'' ''Coldplay'' '' '' = {''yellow'', ''coldplay''}"
  "create_token_set [] ''Coldplay'' ''Parachutes'' = {''coldplay'', ''parachutes''}"
  "create_token_set ''Parachutes'' ''Coldplay'' ''Parachutes'' = {''parachutes'', ''coldplay''}"
  by code_simp+

lemma yellow_text:
  "has_version (lower ''Yellow - Live'')"
  "\<not> has_version (lower ''Yellow'')"
  "album_missing '' ''"
  "\<not> album_missing ''Parachutes''"
  by code_simp+

lemma case_and_punctuation_examples:
  "lower ''YELLOW'' = lower ''Yellow''"
  "filter (\<lambda>c. \<not> is_punctuation c) ''Cold-play!'' = filter (\<lambda>c. \<not> is_punctuation c) ''Coldplay''"
  by code_simp+

section \<open>Properties of the tokenizer beyond Latin-1\<close>

lemma py_split_u_Nil [simp]: "py_split_u [] = []"
  by (simp add: py_split_u.simps)

lemma py_split_u_Cons:
  "py_split_u (c # cs) =
     (if is_space_u c then py_split_u cs
      else (c # takeWhile (\<lambda>x. \<not> is_space_u x) cs)
             # py_split_u (dropWhile (\<lambda>x. \<not> is_space_u x) cs))"
proof (cases "is_space_u c")
  case True
  then show ?thesis
    using py_split_u.simps [of "c # cs"] py_split_u.simps [of cs] by simp
next
  case False
  then show ?thesis
    using py_split_u.simps [of "c # cs"] by simp
qed

lemma py_split_u_leading: "\<forall>c \<in> set l. is_space_u c \<Longrightarrow> py_split_u (l @ s) = py_split_u s"
  by (induction l) (simp_all add: py_split_u_Cons)

lemma py_split_u_word:
  assumes "w \<noteq> []" and "\<forall>c \<in> set w. \<not> is_space_u c" and "v = [] \<or> is_space_u (hd v)"
  shows "py_split_u (w @ v) = w # py_split_u v"
proof -
  obtain c u where w: "w = c # u" using assms(1) by (cases w) auto
  have u: "\<forall>x \<in> set u. \<not> is_space_u x" and c: "\<not> is_space_u c"
    using assms(2) w by auto
  have t: "takeWhile (\<lambda>x. \<not> is_space_u x) (u @ v) = u"
    using u assms(3) by (cases v) (auto simp: takeWhile_append2)
  have d: "dropWhile (\<lambda>x. \<not> is_space_u x) (u @ v) = v"
    using u assms(3) by (cases v) (auto simp: dropWhile_append2)
  show ?thesis
    using c by (simp add: w py_split_u_Cons t d)
qed

lemma head_word_u:
  assumes "\<not> is_space_u c"
  shows "\<exists>w v. c # cs = w @ v \<and> w \<noteq> [] \<and> (\<forall>x \<in> set w. \<not> is_space_u x)
           \<and> (v = [] \<or> is_space_u (hd v)) \<and> length v < length (c # cs)"
proof -
  let ?w = "c # takeWhile (\<lambda>x. \<not> is_space_u x) cs"
  let ?v = "dropWhile (\<lambda>x. \<not> is_space_u x) cs"
  have "c # cs = ?w @ ?v" by simp
  moreover have "\<forall>x \<in> set ?w. \<not> is_space_u x"
    using assms by (auto dest: set_takeWhileD)
  moreover have "?v = [] \<or> is_space_u (hd ?v)"
    using hd_dropWhile [of "\<lambda>x. \<not> is_space_u x" cs] by auto
  moreover have "length ?v < length (c # cs)"
    using length_dropWhile_le [of "\<lambda>x. \<not> is_space_u x" cs] by simp
  ultimately show ?thesis by blast
qed

lemma py_split_u_trailing:
  "\<forall>c \<in> set r. is_space_u c \<Longrightarrow> py_split_u (s @ r) = py_split_u s"
proof (induction "length s" arbitrary: s rule: less_induct)
  case less
  show ?case
  proof (cases s)
    case Nil
    with less.prems py_split_u_leading [of r "[]"] show ?thesis by simp
  next
    case (Cons c cs)
    show ?thesis
    proof (cases "is_space_u c")
      case True
      with less Cons show ?thesis by (simp add: py_split_u_Cons)
    next
      case False
      from head_word_u [OF False, of cs] obtain w v
        where wv: "c # cs = w @ v" "w \<noteq> []" "\<forall>x \<in> set w. \<not> is_space_u x"
          "v = [] \<or> is_space_u (hd v)" "length v < length (c # cs)"
        by blast
      have "v @ r = [] \<or> is_space_u (hd (v @ r))"
        using wv(4) less.prems by (cases v; cases r) auto
      then have "py_split_u (w @ (v @ r)) = w # py_split_u (v @ r)"
        using wv(2,3) by (intro py_split_u_word)
      also have "py_split_u (v @ r) = py_split_u v"
        using less.hyps [of v] wv(5) Cons less.prems by simp
      also have "w # py_split_u v = py_split_u (w @ v)"
        using wv(2,3,4) by (simp add: py_split_u_word)
      finally show ?thesis using Cons wv(1) by simp
    qed
  qed
qed

lemma collapse_ws_u_word:
  "\<forall>x \<in> set w. \<not> is_space_u x \<Longrightarrow> collapse_ws_u (w @ v) = w @ collapse_ws_u v"
  by (induction w) simp_all

lemma collapse_ws_u_head: "v = [] \<or> is_space_u (hd v) \<Longrightarrow>
    collapse_ws_u v = [] \<or> is_space_u (hd (collapse_ws_u v))"
  by (cases v) auto

lemma py_split_u_collapse: "py_split_u (collapse_ws_u s) = py_split_u s"
proof (induction "length s" arbitrary: s rule: less_induct)
  case less
  show ?case
  proof (cases s)
    case Nil
    then show ?thesis by simp
  next
    case (Cons c cs)
    show ?thesis
    proof (cases "is_space_u c")
      case True
      have "py_split_u (collapse_ws_u (dropWhile is_space_u cs)) = py_split_u (dropWhile is_space_u cs)"
        using less.hyps [of "dropWhile is_space_u cs"] Cons
          length_dropWhile_le [of is_space_u cs] by simp
      also have "\<dots> = py_split_u (takeWhile is_space_u cs @ dropWhile is_space_u cs)"
        by (rule py_split_u_leading [symmetric]) (auto dest: set_takeWhileD)
      finally show ?thesis using True Cons by (simp add: py_split_u_Cons)
    next
      case False
      from head_word_u [OF False, of cs] obtain w v
        where wv: "c # cs = w @ v" "w \<noteq> []" "\<forall>x \<in> set w. \<not> is_space_u x"
          "v = [] \<or> is_space_u (hd v)" "length v < length (c # cs)"
        by blast
      have "py_split_u (collapse_ws_u (w @ v)) = py_split_u (w @ collapse_ws_u v)"
        using wv(3) by (simp add: collapse_ws_u_word)
      also have "\<dots> = w # py_split_u (collapse_ws_u v)"
        using wv(2,3) collapse_ws_u_head [OF wv(4)] by (intro py_split_u_word)
      also have "py_split_u (collapse_ws_u v) = py_split_u v"
        using less.hyps [of v] wv(5) Cons by simp
      also have "w # py_split_u v = py_split_u (w @ v)"
        using wv(2,3,4) by (simp add: py_split_u_word)
      finally show ?thesis using Cons wv(1) by simp
    qed
  qed
qed

lemma strip_u_parts:
  "\<exists>l r. s = l @ strip_u s @ r \<and> (\<forall>c \<in> set l. is_space_u c) \<and> (\<forall>c \<in> set r. is_space_u c)"
proof -
  let ?l = "takeWhile is_space_u s"
  let ?m = "dropWhile is_space_u s"
  let ?r = "rev (takeWhile is_space_u (rev ?m))"
  have "rev ?m = takeWhile is_space_u (rev ?m) @ dropWhile is_space_u (rev ?m)"
    by simp
  then have "?m = rev (dropWhile is_space_u (rev ?m)) @ ?r"
    by (metis rev_append rev_rev_ident)
  then have "s = ?l @ strip_u s @ ?r"
    by (metis strip_u_def takeWhile_dropWhile_id)
  moreover have "\<forall>c \<in> set ?l. is_space_u c" "\<forall>c \<in> set ?r. is_space_u c"
    by (auto dest: set_takeWhileD)
  ultimately show ?thesis by blast
qed

lemma py_split_u_strip: "py_split_u (strip_u s) = py_split_u s"
proof -
  obtain l r where "s = l @ strip_u s @ r" "\<forall>c \<in> set l. is_space_u c" "\<forall>c \<in> set r. is_space_u c"
    using strip_u_parts by blast
  then show ?thesis
    by (metis py_split_u_leading py_split_u_trailing)
qed


lemma strip_u_eq_Nil: "strip_u s = [] \<longleftrightarrow> (\<forall>c \<in> set s. is_space_u c)"
proof -
  have "strip_u s = [] \<longleftrightarrow> (\<forall>c \<in> set (dropWhile is_space_u s). is_space_u c)"
    by (simp add: strip_u_def)
  also have "\<dots> \<longleftrightarrow> (\<forall>c \<in> set s. is_space_u c)"
  proof
    assume h: "\<forall>c \<in> set (dropWhile is_space_u s). is_space_u c"
    show "\<forall>c \<in> set s. is_space_u c"
    proof
      fix c assume "c \<in> set s"
      then have "c \<in> set (takeWhile is_space_u s) \<or> c \<in> set (dropWhile is_space_u s)"
        by (metis Un_iff set_append takeWhile_dropWhile_id)
      then show "is_space_u c" using h by (auto dest: set_takeWhileD)
    qed
  next
    assume "\<forall>c \<in> set s. is_space_u c"
    then show "\<forall>c \<in> set (dropWhile is_space_u s). is_space_u c"
      by (auto dest: set_dropWhileD)
  qed
  finally show ?thesis .
qed

lemma is_space_u_lower [simp]: "is_space_u (lower_char_u c) = is_space_u c"
  by (cases c) simp_all

lemma is_word_u_lower [simp]: "is_word_u (lower_char_u c) = is_word_u c"
  by (cases c) simp_all

lemma is_punctuation_u_lower [simp]: "is_punctuation_u (lower_char_u c) = is_punctuation_u c"
  by (simp add: is_punctuation_u_def)

lemma bracket_is_punctuation_u: "is_bracket_u c \<Longrightarrow> is_punctuation_u c"
  by (cases c)
    (auto simp: is_bracket_u_def latin1_def is_punctuation_u_def is_word_def is_space_def)

lemma space_is_no_bracket: "is_space_u c \<Longrightarrow> \<not> is_bracket_u c"
  using bracket_is_punctuation_u [of c] by (auto simp: is_punctuation_u_def)

lemma is_space_u_blank [simp]: "\<forall>c \<in> set (latin1 '' ''). is_space_u c"
  by (simp add: latin1_def is_space_def)

lemma space_is_uncased: "is_space_u c \<Longrightarrow> \<not> is_case_ignorable c \<and> \<not> is_cased c"
  by (cases c) (auto simp: is_space_def Let_def)

lemma space_is_no_sigma: "is_space_u c \<Longrightarrow> c \<noteq> Capital_Sigma"
  by auto

text \<open>Lowercasing is a map on text without capital sigma.\<close>

lemma lower_from_map: "Capital_Sigma \<notin> set s \<Longrightarrow> lower_from b s = map lower_char_u s"
  by (induction s arbitrary: b) auto

lemma lower_u_map: "Capital_Sigma \<notin> set s \<Longrightarrow> lower_u s = map lower_char_u s"
  by (simp add: lower_u_def lower_from_map)

text \<open>Whitespace around a text does not change how the text is lowercased.\<close>

lemma cased_next_stop:
  "\<not> is_case_ignorable w \<Longrightarrow> \<not> is_cased w \<Longrightarrow> cased_next (x @ w # y) = cased_next x"
  by (induction x) (simp_all add: cased_next_def)

lemma cased_next_spaces:
  assumes "\<forall>c \<in> set r. is_space_u c"
  shows "cased_next (x @ r) = cased_next x"
proof (cases r)
  case Nil
  then show ?thesis by simp
next
  case (Cons w y)
  with assms have "is_space_u w" by simp
  then show ?thesis
    using Cons space_is_uncased [of w] by (simp add: cased_next_stop)
qed

lemma lower_from_preceding:
  "\<forall>c \<in> set b. is_space_u c \<Longrightarrow> lower_from (x @ b) s = lower_from x s"
proof (induction s arbitrary: x)
  case Nil
  then show ?case by simp
next
  case (Cons c s)
  from Cons.IH [OF Cons.prems, of "c # x"] show ?case
    by (simp add: handle_capital_sigma_def cased_next_spaces [OF Cons.prems])
qed

lemma lower_from_leading:
  "\<forall>c \<in> set l. is_space_u c \<Longrightarrow> lower_from [] (l @ s) = map lower_char_u l @ lower_from [] s"
proof -
  assume l: "\<forall>c \<in> set l. is_space_u c"
  have "\<forall>c \<in> set k. is_space_u c \<Longrightarrow> \<forall>c \<in> set b. is_space_u c \<Longrightarrow>
      lower_from b (k @ s) = map lower_char_u k @ lower_from [] s" for k b
  proof (induction k arbitrary: b)
    case Nil
    from lower_from_preceding [OF Nil(2), of "[]" s] show ?case by simp
  next
    case (Cons c k)
    have "lower_from (c # b) (k @ s) = map lower_char_u k @ lower_from [] s"
      using Cons by simp
    moreover have "c \<noteq> Capital_Sigma"
      using Cons.prems(1) by auto
    ultimately show ?case by simp
  qed
  from this [OF l, of "[]"] show ?thesis by simp
qed

lemma lower_from_trailing:
  "\<forall>c \<in> set r. is_space_u c \<Longrightarrow> lower_from b (s @ r) = lower_from b s @ map lower_char_u r"
proof (induction s arbitrary: b)
  case Nil
  have "Capital_Sigma \<notin> set r"
    using Nil by auto
  then show ?case by (simp add: lower_from_map)
next
  case (Cons c s)
  from Cons.IH [OF Cons.prems, of "c # b"] show ?case
    by (simp add: handle_capital_sigma_def cased_next_spaces [OF Cons.prems])
qed

lemma lower_u_spaces:
  assumes "\<forall>c \<in> set l. is_space_u c" and "\<forall>c \<in> set r. is_space_u c"
  shows "lower_u (l @ s @ r) = map lower_char_u l @ lower_u s @ map lower_char_u r"
  unfolding lower_u_def
  by (simp only: lower_from_leading [OF assms(1)] lower_from_trailing [OF assms(2)])

lemma keep_is_not_punctuation_u: "(is_word_u c \<or> is_space_u c) = (\<not> is_punctuation_u c)"
  by (simp add: is_punctuation_u_def)

lemma spaces_survive_u:
  "\<forall>c \<in> set l. is_space_u c \<Longrightarrow>
   \<forall>c \<in> set (filter (\<lambda>c. \<not> is_punctuation_u c) (map lower_char_u l)). is_space_u c"
  by auto

lemma spaces_keep_brackets:
  "\<forall>c \<in> set l. is_space_u c \<Longrightarrow> filter (\<lambda>c. \<not> is_bracket_u c) l = l"
  by (induction l) (auto dest: space_is_no_bracket)

text \<open>The text between the stripped ends gives the tokens of the whole text.\<close>

lemma py_split_u_kept_strip:
  "py_split_u (filter (\<lambda>c. \<not> is_punctuation_u c)
       (lower_u (filter (\<lambda>c. \<not> is_bracket_u c) (strip_u s))))
     = py_split_u (filter (\<lambda>c. \<not> is_punctuation_u c)
         (lower_u (filter (\<lambda>c. \<not> is_bracket_u c) s)))"
proof -
  obtain l r where s: "s = l @ strip_u s @ r"
    and l: "\<forall>c \<in> set l. is_space_u c" and r: "\<forall>c \<in> set r. is_space_u c"
    using strip_u_parts by blast
  let ?b = "filter (\<lambda>c. \<not> is_bracket_u c)"
  let ?k = "filter (\<lambda>c. \<not> is_punctuation_u c)"
  let ?m = "lower_u (?b (strip_u s))"
  have "?b s = ?b (l @ strip_u s @ r)"
    using s by simp
  also have "\<dots> = l @ ?b (strip_u s) @ r"
    by (simp only: filter_append spaces_keep_brackets [OF l] spaces_keep_brackets [OF r])
  finally have "lower_u (?b s) = map lower_char_u l @ ?m @ map lower_char_u r"
    by (simp only: lower_u_spaces [OF l r])
  then have "py_split_u (?k (lower_u (?b s)))
      = py_split_u (?k (map lower_char_u l) @ (?k ?m @ ?k (map lower_char_u r)))"
    by (simp only: filter_append)
  also have "\<dots> = py_split_u (?k ?m @ ?k (map lower_char_u r))"
    by (rule py_split_u_leading [OF spaces_survive_u [OF l]])
  also have "\<dots> = py_split_u (?k ?m)"
    by (rule py_split_u_trailing [OF spaces_survive_u [OF r]])
  finally show ?thesis by simp
qed

lemma spaces_give_no_token:
  assumes "\<forall>c \<in> set s. is_space_u c"
  shows "py_split_u (filter (\<lambda>c. \<not> is_punctuation_u c)
           (lower_u (filter (\<lambda>c. \<not> is_bracket_u c) s))) = []"
proof -
  have "Capital_Sigma \<notin> set s"
    using assms by auto
  then have "lower_u (filter (\<lambda>c. \<not> is_bracket_u c) s) = map lower_char_u s"
    by (simp add: spaces_keep_brackets [OF assms] lower_u_map)
  moreover have "py_split_u (filter (\<lambda>c. \<not> is_punctuation_u c) (map lower_char_u s) @ [])
      = py_split_u []"
    by (rule py_split_u_leading [OF spaces_survive_u [OF assms]])
  ultimately show ?thesis by simp
qed

lemma create_token_set_u_spec: "create_token_set_u t a al = spec_token_set_u t a al"
proof -
  let ?s = "t @ latin1 '' '' @ a @ latin1 '' '' @ al"
  let ?b = "filter (\<lambda>c. \<not> is_bracket_u c)"
  let ?k = "filter (\<lambda>c. \<not> is_punctuation_u c)"
  have b: "(\<lambda>c. c \<notin> set (latin1 ''()[]'')) = (\<lambda>c. \<not> is_bracket_u c)"
    by (simp add: is_bracket_u_def)
  have spec: "spec_token_set_u t a al
      = {w \<in> set (py_split_u (?k (lower_u (?b ?s)))). w \<noteq> [] \<and> w \<notin> stop_words_u}"
    unfolding spec_token_set_u_def Let_def by (simp only: py_split_u_collapse)
  show ?thesis
  proof (cases "strip_u ?s = []")
    case True
    then have "\<forall>c \<in> set ?s. is_space_u c"
      by (simp only: strip_u_eq_Nil)
    then have "py_split_u (?k (lower_u (?b ?s))) = []"
      by (rule spaces_give_no_token)
    then have "spec_token_set_u t a al = {}"
      unfolding spec by simp
    moreover have "create_token_set_u t a al = {}"
      unfolding create_token_set_u_def Let_def using True by (simp only: if_True refl)
    ultimately show ?thesis by simp
  next
    case False
    have p: "py_split_u (normalize_string_u (filter (\<lambda>c. c \<notin> set (latin1 ''()[]'')) (strip_u ?s)))
        = py_split_u (?k (lower_u (?b ?s)))"
      unfolding normalize_string_u_def Let_def keep_is_not_punctuation_u b
      by (simp only: py_split_u_strip py_split_u_collapse py_split_u_kept_strip)
    have "create_token_set_u t a al
        = set (dict_fromkeys (filter (\<lambda>token. token \<noteq> [] \<and> token \<notin> stop_words_u)
            (py_split_u (normalize_string_u
               (filter (\<lambda>c. c \<notin> set (latin1 ''()[]'')) (strip_u ?s))))))"
      unfolding create_token_set_u_def Let_def using False by (simp only: if_False)
    also have "\<dots> = spec_token_set_u t a al"
      unfolding p spec by (simp only: set_dict_fromkeys set_filter)
    finally show ?thesis .
  qed
qed

text \<open>Without capital sigma the brackets can be deleted with the rest of the punctuation.\<close>

lemma filter_brackets_first_u:
  "filter (\<lambda>c. \<not> is_punctuation_u c) (map lower_char_u (filter (\<lambda>c. \<not> is_bracket_u c) s))
     = filter (\<lambda>c. \<not> is_punctuation_u c) (map lower_char_u s)"
  by (induction s) (auto dest: bracket_is_punctuation_u)

lemma create_token_set_u_canonical:
  assumes "Capital_Sigma \<notin> set (t @ a @ al)"
  shows "create_token_set_u t a al
     = canonical_tokens_u (t @ latin1 '' '' @ a @ latin1 '' '' @ al)"
proof -
  let ?s = "t @ latin1 '' '' @ a @ latin1 '' '' @ al"
  have "Capital_Sigma \<notin> set ?s"
    using assms by (auto simp: latin1_def)
  then have "Capital_Sigma \<notin> set (filter (\<lambda>c. \<not> is_bracket_u c) ?s)"
    by simp
  then have "lower_u (filter (\<lambda>c. \<not> is_bracket_u c) ?s)
      = map lower_char_u (filter (\<lambda>c. \<not> is_bracket_u c) ?s)"
    by (rule lower_u_map)
  then show ?thesis
    unfolding create_token_set_u_spec spec_token_set_u_def canonical_tokens_u_def Let_def
    by (simp only: py_split_u_collapse filter_brackets_first_u)
qed

lemma kept_lower_u:
  "filter (\<lambda>c. \<not> is_punctuation_u c) (map lower_char_u s)
     = map lower_char_u (filter (\<lambda>c. \<not> is_punctuation_u c) s)"
  by (induction s) simp_all

lemma create_token_set_u_Nil: "create_token_set_u [] [] [] = {}"
  by (simp add: create_token_set_u_def strip_u_def latin1_def is_space_def)

text \<open>On Latin-1 text this tokenizer is the one of the classifier.\<close>

lemma strip_latin1: "strip_u (latin1 s) = latin1 (strip s)"
proof -
  have d: "dropWhile is_space_u (map Latin1 x) = map Latin1 (dropWhile is_space x)" for x
    by (induction x) simp_all
  show ?thesis
    unfolding strip_u_def strip_def latin1_def
    by (simp only: d rev_map)
qed

lemma lower_latin1: "lower_u (latin1 s) = latin1 (lower s)"
proof -
  have "Capital_Sigma \<notin> set (latin1 s)"
    by (auto simp: latin1_def)
  then have "lower_u (latin1 s) = map lower_char_u (latin1 s)"
    by (rule lower_u_map)
  then show ?thesis
    by (simp add: latin1_def lower_def)
qed

lemma collapse_ws_latin1: "collapse_ws_u (latin1 s) = latin1 (collapse_ws s)"
proof (induction s rule: collapse_ws.induct)
  case 1
  then show ?case by (simp add: latin1_def)
next
  case (2 c cs)
  have "is_space_u \<circ> Latin1 = is_space"
    by auto
  then have d: "dropWhile is_space_u (latin1 cs) = latin1 (dropWhile is_space cs)"
    by (simp add: latin1_def dropWhile_map)
  show ?case
  proof (cases "is_space c")
    case True
    with 2(1) d show ?thesis by (simp add: latin1_def)
  next
    case False
    with 2(2) show ?thesis by (simp add: latin1_def)
  qed
qed

lemma py_split_latin1: "py_split_u (latin1 s) = map latin1 (py_split s)"
proof (induction "length s" arbitrary: s rule: less_induct)
  case less
  show ?case
  proof (cases s)
    case Nil
    then show ?thesis by (simp add: latin1_def)
  next
    case (Cons c cs)
    have n: "(\<lambda>x. \<not> is_space_u x) \<circ> Latin1 = (\<lambda>x. \<not> is_space x)"
      by auto
    show ?thesis
    proof (cases "is_space c")
      case True
      with less Cons show ?thesis
        by (simp add: py_split_Cons py_split_u_Cons latin1_def)
    next
      case False
      have "length (dropWhile (\<lambda>x. \<not> is_space x) cs) < length s"
        using Cons length_dropWhile_le [of "\<lambda>x. \<not> is_space x" cs] by simp
      from less [OF this] False n show ?thesis
        by (simp add: Cons py_split_Cons py_split_u_Cons latin1_def takeWhile_map dropWhile_map)
    qed
  qed
qed

lemma latin1_no_sigma: "Capital_Sigma \<notin> set (latin1 s)"
  by (auto simp: latin1_def)

lemma kept_latin1:
  "filter (\<lambda>c. \<not> is_punctuation_u c) (latin1 s)
     = latin1 (filter (\<lambda>c. \<not> is_punctuation c) s)"
  by (induction s) (auto simp: latin1_def is_punctuation_u_def is_punctuation_def)

lemma inj_latin1: "latin1 x = latin1 y \<longleftrightarrow> x = y"
  by (simp add: latin1_def inj_map_eq_map inj_on_def)

lemma create_token_set_latin1:
  "create_token_set_u (latin1 t) (latin1 a) (latin1 al) = latin1 ` create_token_set t a al"
proof -
  let ?s = "t @ '' '' @ a @ '' '' @ al"
  have s: "latin1 t @ latin1 '' '' @ latin1 a @ latin1 '' '' @ latin1 al = latin1 ?s"
    by (simp add: latin1_def)
  have b: "filter (\<lambda>c. c \<notin> set (latin1 ''()[]'')) (latin1 x)
      = latin1 (filter (\<lambda>c. c \<notin> set ''()[]'') x)" for x
    by (induction x) (auto simp: latin1_def)
  have k: "filter (\<lambda>c. is_word_u c \<or> is_space_u c) (latin1 x)
      = latin1 (filter (\<lambda>c. is_word c \<or> is_space c) x)" for x
    by (induction x) (auto simp: latin1_def)
  have n: "normalize_string_u (latin1 x) = latin1 (normalize_string x)" for x
    by (simp add: normalize_string_u_def normalize_string_def lower_latin1 k collapse_ws_latin1
        strip_latin1)
  have e: "latin1 x = [] \<longleftrightarrow> x = []" for x
    by (simp add: latin1_def)
  have f: "filter (\<lambda>token. token \<noteq> [] \<and> token \<notin> stop_words_u) (map latin1 ws)
      = map latin1 (filter (\<lambda>token. token \<noteq> [] \<and> token \<notin> stop_words) ws)" for ws
    by (induction ws) (auto simp: stop_words_u_def inj_latin1 e)
  show ?thesis
    unfolding create_token_set_u_def create_token_set_def Let_def s strip_latin1 b n
      py_split_latin1 f e
    by simp
qed

text \<open>The token sets of the Greek titles and of two titles without capital sigma.\<close>

lemma greek_tokens:
  "create_token_set_u greek_hyphenated [] [] = {[Small_Alpha, Final_Sigma, Small_Alpha]}"
  "create_token_set_u greek_plain [] [] = {[Small_Alpha, Small_Sigma, Small_Alpha]}"
  "create_token_set_u greek_bracketed [] [] = {[Small_Alpha, Small_Sigma, Small_Alpha]}"
  "create_token_set_u greek_bracketed_small [] [] = {[Small_Alpha, Final_Sigma, Small_Alpha]}"
  "create_token_set_u [Capital_Alpha, Small_Sigma, Latin1 CHR ''-'', Capital_Alpha] [] []
     = {[Small_Alpha, Small_Sigma, Small_Alpha]}"
  by code_simp+

lemma greek_text:
  "filter (\<lambda>c. \<not> is_punctuation_u c) greek_hyphenated
     = filter (\<lambda>c. \<not> is_punctuation_u c) greek_plain"
  "lower_u greek_bracketed = lower_u greek_bracketed_small"
  "lower_u [Capital_Alpha, Small_Sigma, Latin1 CHR ''-'', Capital_Alpha]
     = lower_u [Small_Alpha, Small_Sigma, Latin1 CHR ''-'', Small_Alpha]"
  "filter (\<lambda>c. \<not> is_punctuation_u c) [Small_Alpha, Small_Sigma, Latin1 CHR ''-'', Small_Alpha]
     = filter (\<lambda>c. \<not> is_punctuation_u c) [Small_Alpha, Small_Sigma, Small_Alpha]"
  by code_simp+

text \<open>
  C6. \<^const>\<open>create_token_set_u\<close> returns the tokens of the specification's pipeline (join,
  remove brackets, lowercase, remove the remaining punctuation, collapse whitespace, split,
  drop empty tokens and stop words, as a set), and empty input gives the empty set. For
  inputs that hold no capital sigma: inputs that are equal up to case give the same set, and
  so do inputs that are equal once their punctuation characters are deleted, that is,
  however punctuation is inserted into or removed from the fields.
\<close>

theorem tokenizer_spec:
  "create_token_set_u t a al = spec_token_set_u t a al
   \<and> create_token_set_u [] [] [] = {}
   \<and> (Capital_Sigma \<notin> set (t @ a @ al) \<and> Capital_Sigma \<notin> set (t' @ a' @ al')
      \<and> lower_u t = lower_u t' \<and> lower_u a = lower_u a' \<and> lower_u al = lower_u al'
      \<longrightarrow> create_token_set_u t a al = create_token_set_u t' a' al')
   \<and> (Capital_Sigma \<notin> set (t @ a @ al) \<and> Capital_Sigma \<notin> set (t' @ a' @ al')
      \<and> filter (\<lambda>c. \<not> is_punctuation_u c) t = filter (\<lambda>c. \<not> is_punctuation_u c) t'
      \<and> filter (\<lambda>c. \<not> is_punctuation_u c) a = filter (\<lambda>c. \<not> is_punctuation_u c) a'
      \<and> filter (\<lambda>c. \<not> is_punctuation_u c) al = filter (\<lambda>c. \<not> is_punctuation_u c) al'
      \<longrightarrow> create_token_set_u t a al = create_token_set_u t' a' al')"
proof (intro conjI impI)
  show "create_token_set_u t a al = spec_token_set_u t a al"
    by (rule create_token_set_u_spec)
next
  show "create_token_set_u [] [] [] = {}"
    by (rule create_token_set_u_Nil)
next
  assume h: "Capital_Sigma \<notin> set (t @ a @ al) \<and> Capital_Sigma \<notin> set (t' @ a' @ al')
      \<and> lower_u t = lower_u t' \<and> lower_u a = lower_u a' \<and> lower_u al = lower_u al'"
  then have "map lower_char_u t = map lower_char_u t' \<and> map lower_char_u a = map lower_char_u a'
      \<and> map lower_char_u al = map lower_char_u al'"
    using lower_u_map [of t] lower_u_map [of t'] lower_u_map [of a] lower_u_map [of a']
      lower_u_map [of al] lower_u_map [of al']
    by simp
  then have "map lower_char_u (t @ latin1 '' '' @ a @ latin1 '' '' @ al)
      = map lower_char_u (t' @ latin1 '' '' @ a' @ latin1 '' '' @ al')"
    by (simp only: map_append)
  then have "canonical_tokens_u (t @ latin1 '' '' @ a @ latin1 '' '' @ al)
      = canonical_tokens_u (t' @ latin1 '' '' @ a' @ latin1 '' '' @ al')"
    by (simp only: canonical_tokens_u_def)
  moreover from h have "Capital_Sigma \<notin> set (t @ a @ al)"
    and "Capital_Sigma \<notin> set (t' @ a' @ al')"
    by simp_all
  ultimately show "create_token_set_u t a al = create_token_set_u t' a' al'"
    using create_token_set_u_canonical [of t a al] create_token_set_u_canonical [of t' a' al']
    by simp
next
  let ?k = "filter (\<lambda>c. \<not> is_punctuation_u c)"
  assume h: "Capital_Sigma \<notin> set (t @ a @ al) \<and> Capital_Sigma \<notin> set (t' @ a' @ al')
      \<and> ?k t = ?k t' \<and> ?k a = ?k a' \<and> ?k al = ?k al'"
  then have "?k (t @ latin1 '' '' @ a @ latin1 '' '' @ al)
      = ?k (t' @ latin1 '' '' @ a' @ latin1 '' '' @ al')"
    by (simp only: filter_append)
  then have "?k (map lower_char_u (t @ latin1 '' '' @ a @ latin1 '' '' @ al))
      = ?k (map lower_char_u (t' @ latin1 '' '' @ a' @ latin1 '' '' @ al'))"
    by (simp only: kept_lower_u)
  then have "canonical_tokens_u (t @ latin1 '' '' @ a @ latin1 '' '' @ al)
      = canonical_tokens_u (t' @ latin1 '' '' @ a' @ latin1 '' '' @ al')"
    by (simp only: canonical_tokens_u_def)
  moreover from h have "Capital_Sigma \<notin> set (t @ a @ al)"
    and "Capital_Sigma \<notin> set (t' @ a' @ al')"
    by simp_all
  ultimately show "create_token_set_u t a al = create_token_set_u t' a' al'"
    using create_token_set_u_canonical [of t a al] create_token_set_u_canonical [of t' a' al']
    by simp
qed

theorem tokenizer_spec_witness:
  "lower_u [Capital_Alpha, Small_Sigma, Latin1 CHR ''-'', Capital_Alpha]
     = lower_u [Small_Alpha, Small_Sigma, Latin1 CHR ''-'', Small_Alpha]
   \<and> filter (\<lambda>c. \<not> is_punctuation_u c) [Small_Alpha, Small_Sigma, Latin1 CHR ''-'', Small_Alpha]
       = filter (\<lambda>c. \<not> is_punctuation_u c) [Small_Alpha, Small_Sigma, Small_Alpha]
   \<and> create_token_set_u [Capital_Alpha, Small_Sigma, Latin1 CHR ''-'', Capital_Alpha] [] []
       = {[Small_Alpha, Small_Sigma, Small_Alpha]}
   \<and> create_token_set_u [Small_Alpha, Small_Sigma, Latin1 CHR ''-'', Small_Alpha] [] []
       = {[Small_Alpha, Small_Sigma, Small_Alpha]}
   \<and> create_token_set_u [Small_Alpha, Small_Sigma, Small_Alpha] [] []
       = {[Small_Alpha, Small_Sigma, Small_Alpha]}
   \<and> spec_token_set_u greek_hyphenated [] [] = {[Small_Alpha, Final_Sigma, Small_Alpha]}
   \<and> create_token_set_u (latin1 ''YELLOW'') (latin1 ''Cold-play!'') []
       = latin1 ` {''yellow'', ''coldplay''}"
proof -
  let ?upper = "[Capital_Alpha, Small_Sigma, Latin1 CHR ''-'', Capital_Alpha]"
  let ?small = "[Small_Alpha, Small_Sigma, Latin1 CHR ''-'', Small_Alpha]"
  let ?plain = "[Small_Alpha, Small_Sigma, Small_Alpha]"
  note e = case_and_punctuation_examples
  have s: "Capital_Sigma \<notin> set (?upper @ [] @ [])" "Capital_Sigma \<notin> set (?small @ [] @ [])"
    "Capital_Sigma \<notin> set (?plain @ [] @ [])"
    "Capital_Sigma \<notin> set (latin1 x @ latin1 y @ [])" for x y
    by (simp_all add: latin1_no_sigma)
  have l: "lower_u (latin1 ''YELLOW'') = lower_u (latin1 ''Yellow'')"
    by (simp only: lower_latin1 e(1))
  have k: "filter (\<lambda>c. \<not> is_punctuation_u c) (latin1 ''Cold-play!'')
      = filter (\<lambda>c. \<not> is_punctuation_u c) (latin1 ''Coldplay'')"
    by (simp only: kept_latin1 e(2))
  have "create_token_set_u ?upper [] [] = create_token_set_u ?small [] []"
    using tokenizer_spec [of ?upper "[]" "[]" ?small "[]" "[]"] s(1,2) greek_text(3) by blast
  also have "\<dots> = create_token_set_u ?plain [] []"
    using tokenizer_spec [of ?small "[]" "[]" ?plain "[]" "[]"] s(2,3) greek_text(4) by blast
  finally have a: "create_token_set_u ?small [] [] = {[Small_Alpha, Small_Sigma, Small_Alpha]}"
    "create_token_set_u ?plain [] [] = {[Small_Alpha, Small_Sigma, Small_Alpha]}"
    using greek_tokens(5)
      tokenizer_spec [of ?small "[]" "[]" ?plain "[]" "[]"] s(2,3) greek_text(4)
    by blast+
  have c: "spec_token_set_u greek_hyphenated [] [] = {[Small_Alpha, Final_Sigma, Small_Alpha]}"
    using tokenizer_spec [of greek_hyphenated "[]" "[]"] greek_tokens(1) by blast
  have "create_token_set_u (latin1 ''YELLOW'') (latin1 ''Cold-play!'') []
      = create_token_set_u (latin1 ''Yellow'') (latin1 ''Cold-play!'') []"
    using tokenizer_spec [of "latin1 ''YELLOW''" "latin1 ''Cold-play!''" "[]"
        "latin1 ''Yellow''" "latin1 ''Cold-play!''" "[]"] s(4) l
    by blast
  also have "\<dots> = create_token_set_u (latin1 ''Yellow'') (latin1 ''Coldplay'') []"
    using tokenizer_spec [of "latin1 ''Yellow''" "latin1 ''Cold-play!''" "[]"
        "latin1 ''Yellow''" "latin1 ''Coldplay''" "[]"] s(4) k
    by blast
  also have "\<dots> = latin1 ` {''yellow'', ''coldplay''}"
    using create_token_set_latin1 [of "''Yellow''" "''Coldplay''" "[]"]
    by (simp only: yellow_tokens(2)) (simp add: latin1_def)
  finally have d: "create_token_set_u (latin1 ''YELLOW'') (latin1 ''Cold-play!'') []
      = latin1 ` {''yellow'', ''coldplay''}" .
  from greek_text(3,4) greek_tokens(5) a c d show ?thesis
    by (intro conjI)
qed

text \<open>
  C6, as stated for all strings, fails on a capital sigma. The hyphenated title and the plain
  one are equal once the punctuation is deleted, but the hyphen ends a word, so the sigma
  before it is lowercased to the final form, and the two token sets differ. The bracketed
  title and its lowercase are equal after lowercasing, but the tokenizer removes the
  brackets before it lowercases, which puts the capital sigma inside a word, and the two
  token sets differ.
\<close>

theorem final_sigma_counterexample:
  "filter (\<lambda>c. \<not> is_punctuation_u c) greek_hyphenated
     = filter (\<lambda>c. \<not> is_punctuation_u c) greek_plain
   \<and> create_token_set_u greek_hyphenated [] [] = {[Small_Alpha, Final_Sigma, Small_Alpha]}
   \<and> create_token_set_u greek_plain [] [] = {[Small_Alpha, Small_Sigma, Small_Alpha]}
   \<and> lower_u greek_bracketed = lower_u greek_bracketed_small
   \<and> create_token_set_u greek_bracketed [] [] = {[Small_Alpha, Small_Sigma, Small_Alpha]}
   \<and> create_token_set_u greek_bracketed_small [] [] = {[Small_Alpha, Final_Sigma, Small_Alpha]}
   \<and> create_token_set_u greek_hyphenated [] [] \<noteq> create_token_set_u greek_plain [] []
   \<and> create_token_set_u greek_bracketed [] [] \<noteq> create_token_set_u greek_bracketed_small [] []"
  using greek_text(1,2) greek_tokens(1-4) by simp

section \<open>One iteration of the classifier\<close>

lemma check_duration_flags:
  "exact_duration_ok (check_duration s t m tol) = exact_duration_ok (check_duration s t m None)"
  "alt_duration_ok (check_duration s t m tol) = alt_duration_ok (check_duration s t m None)"
  "duration_diff (check_duration s t m tol) = duration_diff (check_duration s t m None)"
  by (auto simp: check_duration_def Let_def split: option.splits)

lemma check_duration_tolerance:
  "tolerance (check_duration s t m tol) =
     (if truthy_int s \<and> truthy_int t then Some (if m then 5000 else 1000) else tol)"
  by (auto simp: check_duration_def truthy_int_def Let_def split: option.splits)

lemma track_number_match_in_model:
  "in_data_model (source_track_number src) \<Longrightarrow> in_data_model (track_number trk) \<Longrightarrow>
   track_number_match_of (source_track_number src) (track_number trk)
     = spec_track_number_match src trk"
  by (auto simp: track_number_match_of_def spec_track_number_match_def in_data_model_def
      truthy_int_def split: option.splits)

lemma py_error_eq: "(e :: py_error) = UnboundLocalError"
  by (cases e) simp

lemma classify_track_eq:
  "classify_track src svc st trk =
     (case tolerance (check_duration (source_duration_ms src) (duration_ms trk)
                        (track_number_match_of (source_track_number src) (track_number trk))
                        (exact_duration_tolerance st)) of
        None \<Rightarrow> Inl UnboundLocalError
      | Some tol \<Rightarrow>
          if is_exact src trk then
            Inr (st\<lparr>exact_duration_tolerance := Some tol,
                    exact_candidates := exact_candidates st @ [exact_entry src trk]\<rparr>)
          else if is_alt src trk then
            Inr (st\<lparr>exact_duration_tolerance := Some tol,
                    alt_candidates := alt_candidates st @ [alt_entry src svc trk]\<rparr>)
          else Inr (st\<lparr>exact_duration_tolerance := Some tol\<rparr>))"
  unfolding classify_track_def is_exact_def is_alt_def exact_entry_def alt_entry_def
    exact_similarity_of_def alt_similarity_of_def duration_of_def Let_def
  by (simp add: check_duration_flags [of _ _ _ "exact_duration_tolerance st"]
      split del: if_split cong: option.case_cong if_cong)

lemma classify_track_raises:
  "classify_track src svc st trk = Inl e \<longleftrightarrow>
     exact_duration_tolerance st = None \<and> \<not> gate_runs src trk"
  by (simp add: classify_track_eq check_duration_tolerance gate_runs_def py_error_eq [of e]
      split: option.split)

lemma classify_track_returns:
  "(\<exists>st'. classify_track src svc st trk = Inr st') \<longleftrightarrow>
     exact_duration_tolerance st \<noteq> None \<or> gate_runs src trk"
proof -
  have "(\<exists>st'. classify_track src svc st trk = Inr st')
        \<longleftrightarrow> \<not> (\<exists>e. classify_track src svc st trk = Inl e)"
    by (cases "classify_track src svc st trk") auto
  then show ?thesis by (simp add: classify_track_raises)
qed

lemma classify_track_binds:
  "classify_track src svc st trk = Inr st' \<Longrightarrow> exact_duration_tolerance st' \<noteq> None"
  by (auto simp: classify_track_eq split: option.splits if_splits)

lemma classify_track_lists:
  assumes "classify_track src svc st trk = Inr st'"
  shows "exact_candidates st' =
           (if is_exact src trk then exact_candidates st @ [exact_entry src trk]
            else exact_candidates st)"
    and "alt_candidates st' =
           (if \<not> is_exact src trk \<and> is_alt src trk
            then alt_candidates st @ [alt_entry src svc trk] else alt_candidates st)"
  using assms by (auto simp: classify_track_eq split: option.splits if_splits)

text \<open>The rules that evaluate an iteration and a run on the example inputs.\<close>

lemma album_missing_Nil: "album_missing []"
  by (simp add: album_missing_def)

lemma lower_length_neq: "length a \<noteq> length b \<Longrightarrow> lower a \<noteq> lower b"
  by (metis length_map lower_def)

lemmas classify_eval =
  album_missing_Nil lower_length_neq yellow_tokens yellow_text
  classify_track_eq is_exact_def is_alt_def exact_entry_def alt_entry_def
  exact_similarity_of_def alt_similarity_of_def duration_of_def source_exact_tokens_def
  source_alt_tokens_def check_duration_def track_number_match_of_def truthy_int_def
  truthy_str_def or_empty_def subset_similarity_def Let_def

lemmas run_eval =
  find_equivalent_links_def process_results_def initial_state_def store_best_exact_def
  store_alternatives_def to_alt_item_def

lemma studio_iteration:
  "classify_track yellow_source ''spotify'' initial_state yellow_studio =
     Inr \<lparr>exact_duration_tolerance = Some 5000,
          exact_candidates =
            [\<lparr>ec_track = yellow_studio, ec_similarity = 1, ec_duration_diff = 773,
              ec_album_match = True, ec_missing_data_penalty = 0,
              ec_track_number_match = True\<rparr>],
          alt_candidates = []\<rparr>"
  by (simp add: classify_eval yellow_source_def yellow_studio_def initial_state_def)

lemma live_iteration:
  "classify_track yellow_source ''spotify'' initial_state yellow_live =
     Inr \<lparr>exact_duration_tolerance = Some 1000,
          exact_candidates = [],
          alt_candidates =
            [\<lparr>ac_track = yellow_live, ac_similarity = 2 / 3, ac_duration_diff = 3227,
              ac_version_penalty = 1 / 10, ac_missing_data_penalty = 5 / 100,
              ac_total_penalty = 15 / 100, ac_service = ''spotify''\<rparr>]\<rparr>"
  by (simp add: classify_eval yellow_source_def yellow_live_def initial_state_def)

lemma zero_iteration:
  "classify_track yellow_source ''spotify''
       \<lparr>exact_duration_tolerance = Some 5000, exact_candidates = [], alt_candidates = []\<rparr>
       yellow_zero_duration =
     Inr \<lparr>exact_duration_tolerance = Some 5000,
          exact_candidates =
            [\<lparr>ec_track = yellow_zero_duration, ec_similarity = 1, ec_duration_diff = 0,
              ec_album_match = True, ec_missing_data_penalty = 0,
              ec_track_number_match = True\<rparr>],
          alt_candidates = []\<rparr>"
  by (simp add: classify_eval yellow_source_def yellow_zero_duration_def)

lemma album_missing_iff: "album_missing a \<longleftrightarrow> (\<forall>c \<in> set a. is_space c)"
  by (auto simp: album_missing_def strip_eq_Nil)

lemma lower_eq_Nil: "lower a = lower b \<Longrightarrow> (a = [] \<longleftrightarrow> b = [])"
  by (metis lower_def map_is_Nil_conv)

lemma album_match_iff:
  "(if truthy_str sa then lower a = lower (or_empty sa) else False)
     = (a \<noteq> [] \<and> sa \<noteq> None \<and> sa \<noteq> Some [] \<and> lower a = lower (or_empty sa))"
  by (cases sa) (auto simp: truthy_str_def or_empty_def dest: lower_eq_Nil)

text \<open>
  C1, as amended. For every candidate for which the classifier reaches its decision (the
  iteration returns), with track numbers in the range of the data model (1 or more) and
  \<open>trackNumberMatch\<close> meaning that both track numbers are set and equal: the candidate is
  appended to the exact candidates if and only if its exact similarity is at least 0.4
  (track numbers match) or 0.75 (otherwise) and the exact duration check holds. The entry
  carries \<open>album_match\<close> = the candidate album and the source album are both non-empty and equal
  up to case; \<open>missing_data_penalty\<close> = 0.05 if the candidate album is empty or consists of
  whitespace only, else 0; and the \<open>trackNumberMatch\<close> flag.
\<close>

theorem exact_classification:
  assumes "classify_track src service_name st trk = Inr st'"
    and "in_data_model (source_track_number src)"
    and "in_data_model (track_number trk)"
  shows "(((if spec_track_number_match src trk then 4 / 10 else 75 / 100)
            \<le> exact_similarity_of src trk \<and> exact_duration_ok (duration_of src trk))
          \<longrightarrow> exact_candidates st' = exact_candidates st @
                [\<lparr>ec_track = trk,
                  ec_similarity = exact_similarity_of src trk,
                  ec_duration_diff = duration_diff (duration_of src trk),
                  ec_album_match =
                    (album trk \<noteq> [] \<and> source_album src \<noteq> None \<and> source_album src \<noteq> Some []
                     \<and> lower (album trk) = lower (or_empty (source_album src))),
                  ec_missing_data_penalty =
                    (if \<forall>c \<in> set (album trk). is_space c then 5 / 100 else 0),
                  ec_track_number_match = spec_track_number_match src trk\<rparr>]
              \<and> alt_candidates st' = alt_candidates st)
       \<and> (\<not> ((if spec_track_number_match src trk then 4 / 10 else 75 / 100)
                \<le> exact_similarity_of src trk \<and> exact_duration_ok (duration_of src trk))
          \<longrightarrow> exact_candidates st' = exact_candidates st)"
proof -
  have m: "track_number_match_of (source_track_number src) (track_number trk)
             = spec_track_number_match src trk"
    using assms(2,3) by (rule track_number_match_in_model)
  have ex: "is_exact src trk \<longleftrightarrow>
      ((if spec_track_number_match src trk then 4 / 10 else 75 / 100)
         \<le> exact_similarity_of src trk \<and> exact_duration_ok (duration_of src trk))"
    by (simp only: is_exact_def m)
  have entry: "exact_entry src trk =
      \<lparr>ec_track = trk,
       ec_similarity = exact_similarity_of src trk,
       ec_duration_diff = duration_diff (duration_of src trk),
       ec_album_match =
         (album trk \<noteq> [] \<and> source_album src \<noteq> None \<and> source_album src \<noteq> Some []
          \<and> lower (album trk) = lower (or_empty (source_album src))),
       ec_missing_data_penalty = (if \<forall>c \<in> set (album trk). is_space c then 5 / 100 else 0),
       ec_track_number_match = spec_track_number_match src trk\<rparr>"
    by (simp only: exact_entry_def m album_match_iff album_missing_iff)
  from classify_track_lists [OF assms(1)] show ?thesis
    unfolding ex [symmetric] entry [symmetric] by simp
qed

text \<open>
  The amended statement at the studio track of the first scenario: track numbers match, the
  similarity is 1, the durations differ by 773 ms, and the entry is the one stated.
\<close>

theorem exact_classification_witness:
  "in_data_model (source_track_number yellow_source)
   \<and> in_data_model (track_number yellow_studio)
   \<and> spec_track_number_match yellow_source yellow_studio
   \<and> 4 / 10 \<le> exact_similarity_of yellow_source yellow_studio
   \<and> exact_duration_ok (duration_of yellow_source yellow_studio)
   \<and> classify_track yellow_source ''spotify'' initial_state yellow_studio =
       Inr \<lparr>exact_duration_tolerance = Some 5000, exact_candidates = [studio_entry],
            alt_candidates = []\<rparr>
   \<and> exact_entry yellow_source yellow_studio = studio_entry"
proof -
  let ?st = "\<lparr>exact_duration_tolerance = Some 5000, exact_candidates = [studio_entry],
              alt_candidates = []\<rparr>"
  have r: "classify_track yellow_source ''spotify'' initial_state yellow_studio = Inr ?st"
    using studio_iteration by (simp add: studio_entry_def)
  have m: "in_data_model (source_track_number yellow_source)"
    "in_data_model (track_number yellow_studio)"
    by (simp_all add: in_data_model_def yellow_source_def yellow_studio_def)
  have t: "spec_track_number_match yellow_source yellow_studio"
    by (simp add: spec_track_number_match_def yellow_source_def yellow_studio_def)
  have s: "exact_similarity_of yellow_source yellow_studio = 1"
    "exact_duration_ok (duration_of yellow_source yellow_studio)"
    by (simp_all add: classify_eval yellow_source_def yellow_studio_def)
  have e: "exact_entry yellow_source yellow_studio = studio_entry"
    using exact_classification [OF r m] t s
    by (simp add: initial_state_def exact_entry_def album_match_iff album_missing_iff
        track_number_match_in_model [OF m])
  from r m t s e show ?thesis by simp
qed

text \<open>
  The claim as written gives a candidate whose album is not empty the penalty 0. The album
  \<open>'' ''\<close> is not empty, the candidate is classified exact, and its penalty is 0.05.
\<close>

theorem blank_album_penalty_counterexample:
  "album yellow_blank_album \<noteq> []
   \<and> classify_track yellow_source ''spotify'' initial_state yellow_blank_album =
       Inr \<lparr>exact_duration_tolerance = Some 1000,
            exact_candidates =
              [\<lparr>ec_track = yellow_blank_album, ec_similarity = 1, ec_duration_diff = 0,
                ec_album_match = False, ec_missing_data_penalty = 5 / 100,
                ec_track_number_match = False\<rparr>],
            alt_candidates = []\<rparr>"
  by (simp add: classify_eval yellow_source_def yellow_blank_album_def initial_state_def)

section \<open>The duration block\<close>

text \<open>
  C2, as amended. The duration block runs exactly when both durations are set and are not 0:
  then the difference is \<open>|source - candidate|\<close>, the exact check is \<open>difference \<le> 5000\<close>
  when the track numbers match and \<open>difference \<le> 1000\<close> otherwise, the alternative check
  is \<open>difference \<le> 10000\<close>, and the tolerance variable is assigned. When either duration is
  absent or 0, both checks are true and the tolerance variable keeps what it held.
\<close>

theorem duration_gate:
  "(s = Some a \<and> t = Some b \<and> a \<noteq> 0 \<and> b \<noteq> 0 \<longrightarrow>
      duration_diff (check_duration s t m tol) = \<bar>a - b\<bar>
      \<and> exact_duration_ok (check_duration s t m tol) = (\<bar>a - b\<bar> \<le> (if m then 5000 else 1000))
      \<and> alt_duration_ok (check_duration s t m tol) = (\<bar>a - b\<bar> \<le> 10000)
      \<and> tolerance (check_duration s t m tol) = Some (if m then 5000 else 1000))
   \<and> (s = None \<or> s = Some 0 \<or> t = None \<or> t = Some 0 \<longrightarrow>
      exact_duration_ok (check_duration s t m tol) \<and> alt_duration_ok (check_duration s t m tol)
      \<and> tolerance (check_duration s t m tol) = tol)"
  by (auto simp: check_duration_def Let_def split: option.splits)

theorem duration_gate_witness:
  "duration_diff (check_duration (Some 266773) (Some 266000) True None) = 773
   \<and> exact_duration_ok (check_duration (Some 266773) (Some 266000) True None)
   \<and> \<not> exact_duration_ok (check_duration (Some 266773) (Some 270000) False None)
   \<and> alt_duration_ok (check_duration (Some 266773) (Some 270000) False None)
   \<and> exact_duration_ok (check_duration (Some 266773) None False None)
   \<and> alt_duration_ok (check_duration None (Some 266000) False None)"
  using duration_gate [of "Some 266773" 266773 "Some 266000" 266000 True None]
    duration_gate [of "Some 266773" 266773 "Some 270000" 270000 False None]
    duration_gate [of "Some 266773" 0 None 0 False None]
    duration_gate [of None 0 "Some 266000" 0 False None]
  by simp

text \<open>
  As written, the claim compares whenever both durations have a value. A candidate duration
  of 0 against a source of 266773 ms differs by more than both tolerances, yet both checks
  are true.
\<close>

theorem zero_duration_counterexample:
  "exact_duration_ok (check_duration (Some 266773) (Some 0) False None)
   \<and> alt_duration_ok (check_duration (Some 266773) (Some 0) False None)
   \<and> \<not> \<bar>266773 - 0\<bar> \<le> (1000 :: int) \<and> \<not> \<bar>266773 - 0\<bar> \<le> (10000 :: int)"
  by (simp add: check_duration_def)

lemma gate_skip:
  "s = None \<or> s = Some 0 \<or> t = None \<or> t = Some 0 \<Longrightarrow>
   check_duration s t m tol =
     \<lparr>exact_duration_ok = True, alt_duration_ok = True, duration_diff = 0, tolerance = tol\<rparr>"
  by (auto simp: check_duration_def Let_def split: option.splits)

lemma gate_zero_source: "check_duration (Some 0) t m tol = check_duration None t m tol"
  by (simp add: gate_skip)

lemma gate_zero_track: "check_duration s (Some 0) m tol = check_duration s None m tol"
  by (simp add: gate_skip)

lemma classify_track_zero_source:
  "classify_track (src\<lparr>source_duration_ms := Some 0\<rparr>) svc st trk
     = classify_track (src\<lparr>source_duration_ms := None\<rparr>) svc st trk"
proof -
  let ?a = "src\<lparr>source_duration_ms := Some 0\<rparr>" and ?b = "src\<lparr>source_duration_ms := None\<rparr>"
  have d: "duration_of ?a trk = duration_of ?b trk"
    by (simp add: duration_of_def gate_zero_source)
  have x: "exact_similarity_of ?a trk = exact_similarity_of ?b trk"
    "alt_similarity_of ?a trk = alt_similarity_of ?b trk"
    by (simp_all add: exact_similarity_of_def alt_similarity_of_def source_exact_tokens_def
        source_alt_tokens_def)
  have e1: "is_exact ?a trk = is_exact ?b trk"
    by (simp add: is_exact_def d x)
  have e2: "is_alt ?a trk = is_alt ?b trk"
    by (simp add: is_alt_def d x)
  have e3: "exact_entry ?a trk = exact_entry ?b trk"
    by (simp add: exact_entry_def d x)
  have e4: "alt_entry ?a svc trk = alt_entry ?b svc trk"
    by (simp add: alt_entry_def d x)
  have t: "tolerance (check_duration (source_duration_ms ?a) (duration_ms trk)
               (track_number_match_of (source_track_number ?a) (track_number trk))
               (exact_duration_tolerance st))
         = tolerance (check_duration (source_duration_ms ?b) (duration_ms trk)
               (track_number_match_of (source_track_number ?b) (track_number trk))
               (exact_duration_tolerance st))"
    by (simp add: gate_zero_source)
  show ?thesis
    by (simp only: classify_track_eq e1 e2 e3 e4 t)
qed

lemma skipped_diff_recorded:
  assumes r: "classify_track src svc st trk = Inr st'"
    and z: "source_duration_ms src = None \<or> source_duration_ms src = Some 0
            \<or> duration_ms trk = None \<or> duration_ms trk = Some 0"
  shows "(\<forall>e. exact_candidates st' = exact_candidates st @ [e] \<longrightarrow> ec_duration_diff e = 0)
       \<and> (\<forall>a. alt_candidates st' = alt_candidates st @ [a] \<longrightarrow> ac_duration_diff a = 0)"
proof -
  have d: "duration_diff (duration_of src trk) = 0"
    using gate_skip [OF z] by (simp add: duration_of_def)
  have "ec_duration_diff (exact_entry src trk) = 0" "ac_duration_diff (alt_entry src svc trk) = 0"
    using d by (simp_all add: exact_entry_def alt_entry_def Let_def)
  with classify_track_lists [OF r] show ?thesis
    by (auto split: if_splits)
qed

lemma classify_track_zero_track:
  "is_exact src (trk\<lparr>duration_ms := Some 0\<rparr>) = is_exact src (trk\<lparr>duration_ms := None\<rparr>)"
  "is_alt src (trk\<lparr>duration_ms := Some 0\<rparr>) = is_alt src (trk\<lparr>duration_ms := None\<rparr>)"
  "isl (classify_track src svc st (trk\<lparr>duration_ms := Some 0\<rparr>))
     = isl (classify_track src svc st (trk\<lparr>duration_ms := None\<rparr>))"
proof -
  let ?a = "trk\<lparr>duration_ms := Some 0\<rparr>" and ?b = "trk\<lparr>duration_ms := None\<rparr>"
  have d: "duration_of src ?a = duration_of src ?b"
    by (simp add: duration_of_def gate_zero_track)
  have x: "exact_similarity_of src ?a = exact_similarity_of src ?b"
    "alt_similarity_of src ?a = alt_similarity_of src ?b"
    by (simp_all add: exact_similarity_of_def alt_similarity_of_def)
  show "is_exact src ?a = is_exact src ?b"
    by (simp add: is_exact_def d x)
  show "is_alt src ?a = is_alt src ?b"
    by (simp add: is_alt_def d x)
  have "(\<exists>e. classify_track src svc st ?a = Inl e) = (\<exists>e. classify_track src svc st ?b = Inl e)"
    by (simp only: classify_track_raises) (simp add: gate_runs_def truthy_int_def)
  then show "isl (classify_track src svc st ?a) = isl (classify_track src svc st ?b)"
    by (cases "classify_track src svc st ?a"; cases "classify_track src svc st ?b") auto
qed

text \<open>
  C10. When the source duration or the candidate duration is absent or 0, the duration block
  is skipped: both checks are true and the difference is 0, whatever the other duration is.
  The block gives the same result for 0 as for an absent duration, on either side; an
  iteration with source duration 0 is the iteration with no source duration; an entry
  recorded by such an iteration, exact or alternative, has \<open>duration_diff = 0\<close>; and a
  candidate with duration 0 takes the same branch, and returns or raises, as the same
  candidate with no duration.
\<close>

theorem zero_duration_as_unknown:
  "(s = None \<or> s = Some 0 \<or> t = None \<or> t = Some 0 \<longrightarrow>
      check_duration s t m tol =
        \<lparr>exact_duration_ok = True, alt_duration_ok = True, duration_diff = 0, tolerance = tol\<rparr>)
   \<and> check_duration (Some 0) t m tol = check_duration None t m tol
   \<and> check_duration s (Some 0) m tol = check_duration s None m tol
   \<and> classify_track (src\<lparr>source_duration_ms := Some 0\<rparr>) service_name st trk
       = classify_track (src\<lparr>source_duration_ms := None\<rparr>) service_name st trk
   \<and> (classify_track src service_name st trk = Inr st'
        \<and> (source_duration_ms src = None \<or> source_duration_ms src = Some 0
           \<or> duration_ms trk = None \<or> duration_ms trk = Some 0)
      \<longrightarrow> (\<forall>e. exact_candidates st' = exact_candidates st @ [e] \<longrightarrow> ec_duration_diff e = 0)
        \<and> (\<forall>a. alt_candidates st' = alt_candidates st @ [a] \<longrightarrow> ac_duration_diff a = 0))
   \<and> is_exact src (trk\<lparr>duration_ms := Some 0\<rparr>) = is_exact src (trk\<lparr>duration_ms := None\<rparr>)
   \<and> is_alt src (trk\<lparr>duration_ms := Some 0\<rparr>) = is_alt src (trk\<lparr>duration_ms := None\<rparr>)
   \<and> isl (classify_track src service_name st (trk\<lparr>duration_ms := Some 0\<rparr>))
       = isl (classify_track src service_name st (trk\<lparr>duration_ms := None\<rparr>))"
proof (intro conjI impI)
  assume "s = None \<or> s = Some 0 \<or> t = None \<or> t = Some 0"
  then show "check_duration s t m tol =
        \<lparr>exact_duration_ok = True, alt_duration_ok = True, duration_diff = 0, tolerance = tol\<rparr>"
    by (rule gate_skip)
next
  show "check_duration (Some 0) t m tol = check_duration None t m tol"
    by (rule gate_zero_source)
next
  show "check_duration s (Some 0) m tol = check_duration s None m tol"
    by (rule gate_zero_track)
next
  show "classify_track (src\<lparr>source_duration_ms := Some 0\<rparr>) service_name st trk
       = classify_track (src\<lparr>source_duration_ms := None\<rparr>) service_name st trk"
    by (rule classify_track_zero_source)
next
  assume h: "classify_track src service_name st trk = Inr st'
        \<and> (source_duration_ms src = None \<or> source_duration_ms src = Some 0
           \<or> duration_ms trk = None \<or> duration_ms trk = Some 0)"
  then show "\<forall>e. exact_candidates st' = exact_candidates st @ [e] \<longrightarrow> ec_duration_diff e = 0"
    using skipped_diff_recorded [of src service_name st trk st'] by blast
next
  assume h: "classify_track src service_name st trk = Inr st'
        \<and> (source_duration_ms src = None \<or> source_duration_ms src = Some 0
           \<or> duration_ms trk = None \<or> duration_ms trk = Some 0)"
  then show "\<forall>a. alt_candidates st' = alt_candidates st @ [a] \<longrightarrow> ac_duration_diff a = 0"
    using skipped_diff_recorded [of src service_name st trk st'] by blast
next
  show "is_exact src (trk\<lparr>duration_ms := Some 0\<rparr>) = is_exact src (trk\<lparr>duration_ms := None\<rparr>)"
    by (rule classify_track_zero_track)
next
  show "is_alt src (trk\<lparr>duration_ms := Some 0\<rparr>) = is_alt src (trk\<lparr>duration_ms := None\<rparr>)"
    by (rule classify_track_zero_track)
next
  show "isl (classify_track src service_name st (trk\<lparr>duration_ms := Some 0\<rparr>))
       = isl (classify_track src service_name st (trk\<lparr>duration_ms := None\<rparr>))"
    by (rule classify_track_zero_track)
qed

theorem zero_duration_as_unknown_witness:
  "check_duration (Some 266773) (Some 0) True (Some 5000) =
     \<lparr>exact_duration_ok = True, alt_duration_ok = True, duration_diff = 0,
      tolerance = Some 5000\<rparr>
   \<and> classify_track yellow_source ''spotify''
        \<lparr>exact_duration_tolerance = Some 5000, exact_candidates = [], alt_candidates = []\<rparr>
        yellow_zero_duration =
       Inr \<lparr>exact_duration_tolerance = Some 5000,
            exact_candidates =
              [\<lparr>ec_track = yellow_zero_duration, ec_similarity = 1, ec_duration_diff = 0,
                ec_album_match = True, ec_missing_data_penalty = 0,
                ec_track_number_match = True\<rparr>],
            alt_candidates = []\<rparr>"
proof -
  let ?st = "\<lparr>exact_duration_tolerance = Some 5000, exact_candidates = [],
              alt_candidates = []\<rparr>"
  let ?e = "\<lparr>ec_track = yellow_zero_duration, ec_similarity = 1, ec_duration_diff = 0,
             ec_album_match = True, ec_missing_data_penalty = 0,
             ec_track_number_match = True\<rparr>"
  let ?st' = "\<lparr>exact_duration_tolerance = Some 5000, exact_candidates = [?e],
               alt_candidates = []\<rparr>"
  note z = zero_duration_as_unknown [of "Some 266773" "Some 0" True "Some 5000"
      yellow_source "''spotify''" ?st yellow_zero_duration ?st']
  have r: "classify_track yellow_source ''spotify'' ?st yellow_zero_duration = Inr ?st'"
    by (rule zero_iteration)
  have d: "duration_ms yellow_zero_duration = Some 0"
    by (simp add: yellow_zero_duration_def)
  have l: "exact_candidates ?st' = exact_candidates ?st @ [?e]"
    by simp
  from z r d l show ?thesis by simp
qed

section \<open>The loop and the orchestrator\<close>

lemma classify_all_raises:
  "classify_all src svc st results = Inl e \<longleftrightarrow>
     results \<noteq> [] \<and> exact_duration_tolerance st = None \<and> \<not> gate_runs src (hd results)"
proof (cases results)
  case Nil
  then show ?thesis by simp
next
  case (Cons trk rest)
  have later: "exact_duration_tolerance s \<noteq> None \<Longrightarrow> classify_all src svc s ts \<noteq> Inl e"
    for s ts
  proof (induction ts arbitrary: s)
    case Nil
    then show ?case by simp
  next
    case (Cons t ts)
    show ?case
    proof (cases "classify_track src svc s t")
      case (Inl e')
      with Cons.prems show ?thesis by (simp add: classify_track_raises)
    next
      case (Inr s')
      then have "exact_duration_tolerance s' \<noteq> None" by (rule classify_track_binds)
      with Cons.IH Inr show ?thesis by simp
    qed
  qed
  show ?thesis
  proof (cases "classify_track src svc st trk")
    case (Inl e')
    then show ?thesis
      using Cons classify_track_raises [of src svc st trk e']
      by (simp add: py_error_eq [of e] py_error_eq [of e'])
  next
    case (Inr s')
    then have "exact_duration_tolerance s' \<noteq> None" by (rule classify_track_binds)
    then have "classify_all src svc s' rest \<noteq> Inl e" by (rule later)
    moreover have "\<not> (exact_duration_tolerance st = None \<and> \<not> gate_runs src trk)"
      using Inr classify_track_raises [of src svc st trk UnboundLocalError] by simp
    ultimately show ?thesis using Cons Inr by auto
  qed
qed

lemma classify_all_lists:
  "classify_all src svc st results = Inr st' \<Longrightarrow>
   exact_candidates st' =
     exact_candidates st @ map (exact_entry src) (filter (is_exact src) results)
   \<and> alt_candidates st' =
     alt_candidates st
       @ map (alt_entry src svc) (filter (\<lambda>t. \<not> is_exact src t \<and> is_alt src t) results)"
proof (induction results arbitrary: st)
  case Nil
  then show ?case by simp
next
  case (Cons trk rest)
  then obtain s where s: "classify_track src svc st trk = Inr s"
    and r: "classify_all src svc s rest = Inr st'"
    by (auto split: sum.splits)
  from Cons.IH [OF r] classify_track_lists [OF s] show ?case by simp
qed

lemma process_results_Nil: "process_results src svc [] dicts = Inr dicts"
  by (simp add: process_results_def store_best_exact_def store_alternatives_def
      initial_state_def)

text \<open>
  A call of \<^verbatim>\<open>process_results\<close> raises exactly when it has a first candidate for which the
  duration block does not run; otherwise it returns.
\<close>

lemma process_results_raises:
  "process_results src svc results dicts = Inl e \<longleftrightarrow>
     results \<noteq> [] \<and> \<not> gate_runs src (hd results)"
proof (cases "classify_all src svc initial_state results")
  case (Inl e')
  then have "results \<noteq> [] \<and> \<not> gate_runs src (hd results)"
    using classify_all_raises [of src svc initial_state results e'] by simp
  with Inl show ?thesis
    by (simp add: process_results_def py_error_eq [of e] py_error_eq [of e'])
next
  case (Inr st)
  then have "\<not> (results \<noteq> [] \<and> \<not> gate_runs src (hd results))"
    using classify_all_raises [of src svc initial_state results UnboundLocalError]
    by (simp add: initial_state_def)
  with Inr show ?thesis
    by (simp add: process_results_def)
qed

lemma process_results_frame:
  assumes "process_results src svc results dicts = Inr dicts'" and "k \<noteq> svc"
  shows "fst dicts' k = fst dicts k \<and> snd dicts' k = snd dicts k"
  using assms
  by (auto simp: process_results_def store_best_exact_def store_alternatives_def
      split: sum.splits list.splits)

lemma resolve_from_frame:
  "resolve_from src providers dicts = Inr dicts' \<Longrightarrow> k \<notin> fst ` set providers \<Longrightarrow>
   fst dicts' k = fst dicts k \<and> snd dicts' k = snd dicts k"
proof (induction providers arbitrary: dicts)
  case Nil
  then show ?case by simp
next
  case (Cons p ps)
  obtain name results where p: "p = (name, results)" by (cases p)
  from Cons.prems p obtain d where d: "process_results src name results dicts = Inr d"
    and r: "resolve_from src ps d = Inr dicts'"
    by (auto split: sum.splits)
  from Cons.prems p have "k \<noteq> name" "k \<notin> fst ` set ps" by auto
  with Cons.IH [OF r] process_results_frame [OF d] show ?case by simp
qed

lemma resolve_from_skip_empty:
  "resolve_from src (ps @ (name, []) # qs) dicts = resolve_from src (ps @ qs) dicts"
  by (induction ps arbitrary: dicts) (auto simp: process_results_Nil split: sum.splits)

lemma find_equivalent_links_resolve:
  "find_equivalent_links src sp ap yt =
     resolve_from src [(''spotify'', sp), (''apple'', ap), (''youtube'', yt)]
       (Map.empty, Map.empty)"
  by (simp add: find_equivalent_links_def split: sum.splits)

text \<open>
  C9. A provider whose search returns the empty list leaves both dicts as they are; the
  result of the orchestrator is the result without that provider, wherever it stands in
  the order; its id has no entry in \<open>links\<close> nor in \<open>alternatives\<close>; and
  \<^const>\<open>find_equivalent_links\<close> with an empty Spotify, Apple or YouTube result is the run over
  the two other providers.
\<close>

theorem empty_provider_contributes_nothing:
  "process_results src provider_id [] dicts = Inr dicts
   \<and> resolve_from src (ps @ (provider_id, []) # qs) dicts = resolve_from src (ps @ qs) dicts
   \<and> (resolve_from src (ps @ (provider_id, []) # qs) (Map.empty, Map.empty) = Inr (links, alts)
        \<and> provider_id \<notin> fst ` set (ps @ qs)
      \<longrightarrow> links provider_id = None \<and> alts provider_id = None)
   \<and> find_equivalent_links src [] ap yt =
        resolve_from src [(''apple'', ap), (''youtube'', yt)] (Map.empty, Map.empty)
   \<and> find_equivalent_links src sp [] yt =
        resolve_from src [(''spotify'', sp), (''youtube'', yt)] (Map.empty, Map.empty)
   \<and> find_equivalent_links src sp ap [] =
        resolve_from src [(''spotify'', sp), (''apple'', ap)] (Map.empty, Map.empty)"
proof -
  have frame: "resolve_from src (ps @ (provider_id, []) # qs) (Map.empty, Map.empty)
        = Inr (links, alts) \<and> provider_id \<notin> fst ` set (ps @ qs)
      \<longrightarrow> links provider_id = None \<and> alts provider_id = None"
  proof
    assume h: "resolve_from src (ps @ (provider_id, []) # qs) (Map.empty, Map.empty)
        = Inr (links, alts) \<and> provider_id \<notin> fst ` set (ps @ qs)"
    then have "resolve_from src (ps @ qs) (Map.empty, Map.empty) = Inr (links, alts)"
      by (simp add: resolve_from_skip_empty)
    from resolve_from_frame [OF this, of provider_id] h
    show "links provider_id = None \<and> alts provider_id = None" by simp
  qed
  have a: "find_equivalent_links src [] ap yt =
        resolve_from src [(''apple'', ap), (''youtube'', yt)] (Map.empty, Map.empty)"
    using resolve_from_skip_empty [of src "[]" "''spotify''"]
    by (simp add: find_equivalent_links_resolve)
  have b: "find_equivalent_links src sp [] yt =
        resolve_from src [(''spotify'', sp), (''youtube'', yt)] (Map.empty, Map.empty)"
    using resolve_from_skip_empty [of src "[(''spotify'', sp)]" "''apple''" "[(''youtube'', yt)]"]
    by (simp add: find_equivalent_links_resolve)
  have c: "find_equivalent_links src sp ap [] =
        resolve_from src [(''spotify'', sp), (''apple'', ap)] (Map.empty, Map.empty)"
    using resolve_from_skip_empty [of src "[(''spotify'', sp), (''apple'', ap)]" "''youtube''" "[]"]
    by (simp add: find_equivalent_links_resolve)
  show ?thesis
    using frame a b c by (simp add: process_results_Nil resolve_from_skip_empty)
qed

theorem empty_provider_contributes_nothing_witness:
  "find_equivalent_links yellow_source [yellow_studio] [] []
     = Inr (Map.empty(''spotify'' \<mapsto> ''u/studio''), Map.empty)
   \<and> ''apple'' \<notin> fst ` set ([(''spotify'', [yellow_studio])] @ [(''youtube'', [])])
   \<and> (Map.empty(''spotify'' \<mapsto> ''u/studio'')) ''apple'' = None
   \<and> find_equivalent_links yellow_source [yellow_studio] [] []
     = resolve_from yellow_source [(''spotify'', [yellow_studio]), (''apple'', [])]
         (Map.empty, Map.empty)"
proof -
  let ?l = "Map.empty(''spotify'' \<mapsto> ''u/studio'')"
  have run: "find_equivalent_links yellow_source [yellow_studio] [] [] = Inr (?l, Map.empty)"
    using studio_iteration by (simp add: run_eval exact_key_def yellow_studio_def)
  note e = empty_provider_contributes_nothing
    [where src = yellow_source and provider_id = "''apple''"
      and ps = "[(''spotify'', [yellow_studio])]" and qs = "[(''youtube'', [])]"
      and links = ?l and alts = Map.empty and sp = "[yellow_studio]" and ap = "[]"
      and yt = "[]" and dicts = "(Map.empty, Map.empty)"]
  have r: "resolve_from yellow_source
      ([(''spotify'', [yellow_studio])] @ (''apple'', []) # [(''youtube'', [])])
      (Map.empty, Map.empty) = Inr (?l, Map.empty)"
    using run by (simp add: find_equivalent_links_resolve)
  have n: "''apple'' \<notin> fst ` set ([(''spotify'', [yellow_studio])] @ [(''youtube'', [])])"
    by simp
  have "?l ''apple'' = None"
    using e r n by blast
  moreover have "find_equivalent_links yellow_source [yellow_studio] [] []
     = resolve_from yellow_source [(''spotify'', [yellow_studio]), (''apple'', [])]
         (Map.empty, Map.empty)"
    using e by blast
  ultimately show ?thesis using run n by blast
qed

section \<open>A source without tokens\<close>

lemma create_token_set_Nil: "create_token_set [] [] [] = {}"
  by (simp add: create_token_set_def strip_def is_space_def)

lemma subset_similarity_no_source: "subset_similarity {} B m = 0"
  by (simp add: subset_similarity_def)

lemma empty_source_tokens:
  assumes "source_title src = []" and "source_artist src = []"
    and "source_album src = None \<or> source_album src = Some []"
  shows "source_exact_tokens src = {} \<and> source_alt_tokens src = {}"
  using assms
  by (auto simp: source_exact_tokens_def source_alt_tokens_def or_empty_def create_token_set_Nil)

lemma punctuation_tokens: "create_token_set [] ''!!!'' [] = {}"
  by code_simp

lemma no_tokens_rejects:
  assumes "source_exact_tokens src = {}" and "source_alt_tokens src = {}"
  shows "\<not> is_exact src trk \<and> \<not> is_alt src trk"
proof -
  have "exact_similarity_of src trk = 0" "alt_similarity_of src trk = 0"
    using assms
    by (simp_all add: exact_similarity_of_def alt_similarity_of_def subset_similarity_no_source)
  then show ?thesis by (simp add: is_exact_def is_alt_def)
qed

lemma no_tokens_process:
  assumes "source_exact_tokens src = {}" and "source_alt_tokens src = {}"
    and "process_results src svc results dicts = Inr dicts'"
  shows "dicts' = dicts"
proof -
  from assms(3) obtain st where st: "classify_all src svc initial_state results = Inr st"
    and d: "dicts' = (store_best_exact svc (exact_candidates st) (fst dicts),
                      store_alternatives svc (alt_candidates st) (snd dicts))"
    by (auto simp: process_results_def split: sum.splits)
  have "exact_candidates st = []" "alt_candidates st = []"
    using classify_all_lists [OF st] no_tokens_rejects [OF assms(1,2)]
    by (simp_all add: initial_state_def)
  with d show ?thesis by (simp add: store_best_exact_def store_alternatives_def)
qed

lemma single_result_returns:
  assumes "gate_runs src t"
  shows "\<exists>d. process_results src svc [t] dicts = Inr d"
proof (cases "classify_all src svc initial_state [t]")
  case (Inl e)
  with assms classify_all_raises [of src svc initial_state "[t]" e]
  show ?thesis by simp
next
  case (Inr st)
  then show ?thesis by (simp add: process_results_def)
qed

text \<open>
  C7, as amended. \<^const>\<open>find_equivalent_links\<close> has no check of its own on the title and the
  artist (its caller has one); it scores against whatever tokens the source has. When both
  token sets of the source are empty, every candidate scores 0, and a call that returns,
  returns empty links and empty alternatives, whatever the providers returned. Both sets are
  empty when title, artist and album are all empty or missing.
\<close>

theorem empty_source_matches_nothing:
  "(source_exact_tokens src = {} \<and> source_alt_tokens src = {}
    \<and> find_equivalent_links src spotify_results apple_results yt_results = Inr (links, alts)
    \<longrightarrow> links = Map.empty \<and> alts = Map.empty)
   \<and> (source_title src = [] \<and> source_artist src = []
      \<and> (source_album src = None \<or> source_album src = Some [])
      \<longrightarrow> source_exact_tokens src = {} \<and> source_alt_tokens src = {})"
proof (intro conjI impI)
  assume h: "source_exact_tokens src = {} \<and> source_alt_tokens src = {}
    \<and> find_equivalent_links src spotify_results apple_results yt_results = Inr (links, alts)"
  then have e: "source_exact_tokens src = {}" and a: "source_alt_tokens src = {}"
    by simp_all
  from h obtain d1 d2
    where 1: "process_results src ''spotify'' spotify_results (Map.empty, Map.empty) = Inr d1"
      and 2: "process_results src ''apple'' apple_results d1 = Inr d2"
      and 3: "process_results src ''youtube'' yt_results d2 = Inr (links, alts)"
    by (auto simp: find_equivalent_links_def split: sum.splits)
  have "d1 = (Map.empty, Map.empty)"
    using no_tokens_process [OF e a 1] .
  moreover have "d2 = d1"
    using no_tokens_process [OF e a 2] .
  moreover have "(links, alts) = d2"
    using no_tokens_process [OF e a 3] .
  ultimately show "links = Map.empty" and "alts = Map.empty"
    by simp_all
next
  assume "source_title src = [] \<and> source_artist src = []
      \<and> (source_album src = None \<or> source_album src = Some [])"
  then show "source_exact_tokens src = {}" and "source_alt_tokens src = {}"
    using empty_source_tokens [of src] by simp_all
qed

theorem empty_source_matches_nothing_witness:
  "source_title empty_source = [] \<and> source_artist empty_source = []
   \<and> source_album empty_source = None
   \<and> source_exact_tokens empty_source = {} \<and> source_alt_tokens empty_source = {}
   \<and> find_equivalent_links empty_source [yellow_studio] [parachutes_track] []
       = Inr (Map.empty, Map.empty)
   \<and> source_artist punctuation_source = ''!!!''
   \<and> source_exact_tokens punctuation_source = {} \<and> source_alt_tokens punctuation_source = {}
   \<and> find_equivalent_links punctuation_source [yellow_studio] [parachutes_track] []
       = Inr (Map.empty, Map.empty)"
proof -
  have run: "\<exists>l a. find_equivalent_links src [yellow_studio] [parachutes_track] [] = Inr (l, a)"
    if "truthy_int (source_duration_ms src)" for src
  proof -
    have g: "gate_runs src yellow_studio" "gate_runs src parachutes_track"
      using that by (simp_all add: gate_runs_def truthy_int_def yellow_studio_def
          parachutes_track_def)
    obtain d1 where d1: "process_results src ''spotify'' [yellow_studio]
        (Map.empty, Map.empty) = Inr d1"
      using single_result_returns [OF g(1)] by blast
    obtain d2 where d2: "process_results src ''apple'' [parachutes_track] d1 = Inr d2"
      using single_result_returns [OF g(2)] by blast
    obtain l a where "d2 = (l, a)" by (cases d2)
    then have "find_equivalent_links src [yellow_studio] [parachutes_track] [] = Inr (l, a)"
      using d1 d2 by (simp add: find_equivalent_links_def process_results_Nil)
    then show ?thesis by blast
  qed
  have h: "source_title empty_source = []" "source_artist empty_source = []"
    "source_album empty_source = None"
    by (simp_all add: empty_source_def)
  have e: "source_exact_tokens empty_source = {} \<and> source_alt_tokens empty_source = {}"
    using empty_source_matches_nothing [of empty_source] h by blast
  have p: "source_artist punctuation_source = ''!!!''"
    "source_exact_tokens punctuation_source = {} \<and> source_alt_tokens punctuation_source = {}"
    by (simp_all add: punctuation_source_def source_exact_tokens_def source_alt_tokens_def
        or_empty_def punctuation_tokens)
  obtain l a where r: "find_equivalent_links empty_source [yellow_studio] [parachutes_track] []
      = Inr (l, a)"
    using run [of empty_source] by (auto simp: empty_source_def truthy_int_def)
  have "l = Map.empty \<and> a = Map.empty"
    using empty_source_matches_nothing
      [of empty_source "[yellow_studio]" "[parachutes_track]" "[]" l a] e r
    by blast
  with r have re: "find_equivalent_links empty_source [yellow_studio] [parachutes_track] []
      = Inr (Map.empty, Map.empty)"
    by simp
  obtain l' a' where r': "find_equivalent_links punctuation_source [yellow_studio]
      [parachutes_track] [] = Inr (l', a')"
    using run [of punctuation_source] by (auto simp: punctuation_source_def truthy_int_def)
  have "l' = Map.empty \<and> a' = Map.empty"
    using empty_source_matches_nothing
      [of punctuation_source "[yellow_studio]" "[parachutes_track]" "[]" l' a'] p(2) r'
    by blast
  with r' have rp: "find_equivalent_links punctuation_source [yellow_studio]
      [parachutes_track] [] = Inr (Map.empty, Map.empty)"
    by simp
  from h e re p rp show ?thesis
    by (intro conjI) simp_all
qed

text \<open>
  As written, the claim promises empty results when the title is empty. With an empty title,
  the artist and the album of the source are still scored: the title track of the album is
  returned as the Spotify link.
\<close>

theorem untitled_source_counterexample:
  "source_title untitled_source = []
   \<and> find_equivalent_links untitled_source [parachutes_track] [] []
       = Inr (Map.empty(''spotify'' \<mapsto> ''u/title''), Map.empty)"
  by (simp add: run_eval classify_eval untitled_source_def parachutes_track_def)

section \<open>Ranking\<close>

lemma exact_key_le: "exact_key c \<le> exact_key b \<longleftrightarrow> ranks_at_least b c"
  by (auto simp: exact_key_def ranks_at_least_def)

lemma alt_key_le: "alt_key a \<le> alt_key b \<longleftrightarrow> listed_before a b"
  by (auto simp: alt_key_def listed_before_def)

lemma py_max_greatest:
  "py_max key best xs \<in> set (best # xs)
   \<and> (\<forall>c \<in> set (best # xs). key c \<le> key (py_max key best xs))"
proof (induction xs arbitrary: best)
  case Nil
  show ?case by simp
next
  case (Cons x xs)
  show ?case
  proof (cases "key best < key x")
    case True
    with Cons.IH [of x] show ?thesis by (auto intro: less_imp_le order_trans)
  next
    case False
    with Cons.IH [of best] show ?thesis by (auto intro: order_trans)
  qed
qed

lemma sorted_alternatives: "sorted_wrt listed_before (sort_key alt_key cands)"
proof -
  have "sorted (map alt_key (sort_key alt_key cands))"
    by (rule sorted_sort_key)
  then show ?thesis
    by (simp add: sorted_map alt_key_le)
qed

text \<open>
  C5. A provider's results are ranked from the two lists the classifier built. The link kept
  for a provider is the url of an exact candidate that wins or ties against
  every exact candidate under the composite key (none is kept when there is no exact
  candidate); the alternatives stored are all the alternative candidates, none dropped, in an
  order ascending by (minus similarity, total penalty, duration difference), and nothing is
  stored when there is none. Of two exact candidates with equal similarity, the one whose
  album matches is kept, in either order and whatever their duration differences.
\<close>

theorem ranker_spec:
  "(classify_all src service_name initial_state results = Inr st \<longrightarrow>
      process_results src service_name results (links_dict, alt_dict)
        = Inr (store_best_exact service_name (exact_candidates st) links_dict,
               store_alternatives service_name (alt_candidates st) alt_dict))
   \<and> (cands = [] \<longrightarrow> store_best_exact service_name cands links_dict = links_dict)
   \<and> (cands \<noteq> [] \<longrightarrow>
        (\<exists>best \<in> set cands.
            store_best_exact service_name cands links_dict
              = links_dict(service_name \<mapsto> url (ec_track best))
            \<and> (\<forall>c \<in> set cands. ranks_at_least best c)))
   \<and> (alts = [] \<longrightarrow> store_alternatives service_name alts alt_dict = alt_dict)
   \<and> (alts \<noteq> [] \<longrightarrow>
        (\<exists>ranked.
            store_alternatives service_name alts alt_dict
              = alt_dict(service_name \<mapsto> map (to_alt_item service_name) ranked)
            \<and> mset ranked = mset alts \<and> length ranked = length alts
            \<and> sorted_wrt listed_before ranked))
   \<and> (ec_similarity a = ec_similarity b \<and> ec_album_match a \<and> \<not> ec_album_match b \<longrightarrow>
        store_best_exact service_name [a, b] links_dict
          = links_dict(service_name \<mapsto> url (ec_track a))
        \<and> store_best_exact service_name [b, a] links_dict
          = links_dict(service_name \<mapsto> url (ec_track a)))"
proof (intro conjI impI)
  assume "classify_all src service_name initial_state results = Inr st"
  then show "process_results src service_name results (links_dict, alt_dict)
      = Inr (store_best_exact service_name (exact_candidates st) links_dict,
             store_alternatives service_name (alt_candidates st) alt_dict)"
    by (simp add: process_results_def)
next
  assume "cands = []"
  then show "store_best_exact service_name cands links_dict = links_dict"
    by (simp add: store_best_exact_def)
next
  assume "cands \<noteq> []"
  then obtain c cs where c: "cands = c # cs" by (cases cands) auto
  let ?best = "py_max exact_key c cs"
  have "?best \<in> set cands" "\<forall>x \<in> set cands. ranks_at_least ?best x"
    using py_max_greatest [of exact_key c cs] c by (simp_all add: exact_key_le)
  moreover have "store_best_exact service_name cands links_dict
      = links_dict(service_name \<mapsto> url (ec_track ?best))"
    by (simp add: store_best_exact_def c)
  ultimately show "\<exists>best \<in> set cands.
      store_best_exact service_name cands links_dict
        = links_dict(service_name \<mapsto> url (ec_track best))
      \<and> (\<forall>c \<in> set cands. ranks_at_least best c)"
    by blast
next
  assume "alts = []"
  then show "store_alternatives service_name alts alt_dict = alt_dict"
    by (simp add: store_alternatives_def)
next
  assume "alts \<noteq> []"
  then have "store_alternatives service_name alts alt_dict
      = alt_dict(service_name \<mapsto> map (to_alt_item service_name) (sort_key alt_key alts))"
    by (simp add: store_alternatives_def)
  moreover have "mset (sort_key alt_key alts) = mset alts"
    "length (sort_key alt_key alts) = length alts"
    by simp_all
  ultimately show "\<exists>ranked.
      store_alternatives service_name alts alt_dict
        = alt_dict(service_name \<mapsto> map (to_alt_item service_name) ranked)
      \<and> mset ranked = mset alts \<and> length ranked = length alts
      \<and> sorted_wrt listed_before ranked"
    using sorted_alternatives [of alts] by blast
next
  assume "ec_similarity a = ec_similarity b \<and> ec_album_match a \<and> \<not> ec_album_match b"
  then show "store_best_exact service_name [a, b] links_dict
      = links_dict(service_name \<mapsto> url (ec_track a))"
    by (simp add: store_best_exact_def exact_key_def)
next
  assume "ec_similarity a = ec_similarity b \<and> ec_album_match a \<and> \<not> ec_album_match b"
  then show "store_best_exact service_name [b, a] links_dict
      = links_dict(service_name \<mapsto> url (ec_track a))"
    by (simp add: store_best_exact_def exact_key_def)
qed

theorem ranker_spec_witness:
  "process_results yellow_source ''spotify'' [yellow_studio] (Map.empty, Map.empty)
     = Inr (Map.empty(''spotify'' \<mapsto> ''u/studio''), Map.empty)
   \<and> ec_similarity studio_entry = ec_similarity blank_entry
   \<and> ec_album_match studio_entry \<and> \<not> ec_album_match blank_entry
   \<and> ec_duration_diff blank_entry < ec_duration_diff studio_entry
   \<and> store_best_exact ''spotify'' [blank_entry, studio_entry] Map.empty
       = Map.empty(''spotify'' \<mapsto> ''u/studio'')
   \<and> store_best_exact ''spotify'' [studio_entry, blank_entry] Map.empty
       = Map.empty(''spotify'' \<mapsto> ''u/studio'')
   \<and> ranks_at_least studio_entry blank_entry
   \<and> store_alternatives ''spotify'' [live_entry, video_entry] Map.empty
       = Map.empty(''spotify'' \<mapsto>
           [to_alt_item ''spotify'' video_entry, to_alt_item ''spotify'' live_entry])
   \<and> listed_before video_entry live_entry"
proof -
  let ?st = "\<lparr>exact_duration_tolerance = Some 5000, exact_candidates = [studio_entry],
              alt_candidates = []\<rparr>"
  note r = ranker_spec [where cands = "[blank_entry, studio_entry]"
      and service_name = "''spotify''" and links_dict = Map.empty
      and alts = "[live_entry, video_entry]" and alt_dict = Map.empty
      and a = studio_entry and b = blank_entry
      and src = yellow_source and results = "[yellow_studio]" and st = ?st]
  have c: "classify_all yellow_source ''spotify'' initial_state [yellow_studio] = Inr ?st"
    using studio_iteration by (simp add: studio_entry_def)
  have p: "process_results yellow_source ''spotify'' [yellow_studio] (Map.empty, Map.empty)
     = Inr (Map.empty(''spotify'' \<mapsto> ''u/studio''), Map.empty)"
    using r c
    by (simp add: store_best_exact_def store_alternatives_def studio_entry_def
        yellow_studio_def)
  have h: "ec_similarity studio_entry = ec_similarity blank_entry"
    "ec_album_match studio_entry" "\<not> ec_album_match blank_entry"
    "ec_duration_diff blank_entry < ec_duration_diff studio_entry"
    by (simp_all add: studio_entry_def blank_entry_def)
  have b: "store_best_exact ''spotify'' [blank_entry, studio_entry] Map.empty
       = Map.empty(''spotify'' \<mapsto> ''u/studio'')"
    "store_best_exact ''spotify'' [studio_entry, blank_entry] Map.empty
       = Map.empty(''spotify'' \<mapsto> ''u/studio'')"
    using r h by (simp_all add: studio_entry_def yellow_studio_def)
  have k: "ranks_at_least studio_entry blank_entry" "listed_before video_entry live_entry"
    by (simp_all add: ranks_at_least_def listed_before_def studio_entry_def blank_entry_def
        live_entry_def video_entry_def)
  have a: "store_alternatives ''spotify'' [live_entry, video_entry] Map.empty
       = Map.empty(''spotify'' \<mapsto>
           [to_alt_item ''spotify'' video_entry, to_alt_item ''spotify'' live_entry])"
    by (simp add: store_alternatives_def alt_key_def live_entry_def video_entry_def)
  from p h b k a show ?thesis by simp
qed

section \<open>The unbound tolerance\<close>

text \<open>
  An iteration that completes takes one of the three branches, and only one: the candidate is
  appended to the exact candidates, or to the alternative candidates, or to neither.
\<close>

lemma completed_iteration_outcome:
  assumes "classify_track src svc st trk = Inr st'"
  shows "(is_exact src trk
            \<and> exact_candidates st' = exact_candidates st @ [exact_entry src trk]
            \<and> alt_candidates st' = alt_candidates st)
       \<or> (\<not> is_exact src trk \<and> is_alt src trk
            \<and> exact_candidates st' = exact_candidates st
            \<and> alt_candidates st' = alt_candidates st @ [alt_entry src svc trk])
       \<or> (\<not> is_exact src trk \<and> \<not> is_alt src trk
            \<and> exact_candidates st' = exact_candidates st
            \<and> alt_candidates st' = alt_candidates st)"
  using classify_track_lists [OF assms] by auto

lemma completed_iteration_one_list:
  assumes "classify_track src svc st trk = Inr st'"
  shows "length (exact_candidates st') + length (alt_candidates st')
           \<le> length (exact_candidates st) + length (alt_candidates st) + 1"
  using classify_track_lists [OF assms] by auto

text \<open>
  A candidate that is not exact and whose iteration completes is appended to the
  alternatives exactly when its alternative similarity is at least 0.5 and the alternative
  duration check holds; the version penalty is 0.1 when the lowercased candidate title
  contains one of the version words and the lowercased source title contains none, the
  missing-album penalty is 0.05 when the album is empty or blank, and the total is their sum.
\<close>

lemma alternative_classification:
  assumes "classify_track src svc st trk = Inr st'" and "\<not> is_exact src trk"
  shows "(1 / 2 \<le> alt_similarity_of src trk \<and> alt_duration_ok (duration_of src trk) \<longrightarrow>
            alt_candidates st' = alt_candidates st @
              [\<lparr>ac_track = trk,
                ac_similarity = alt_similarity_of src trk,
                ac_duration_diff = duration_diff (duration_of src trk),
                ac_version_penalty =
                  (if (\<exists>w \<in> set version_words. \<exists>p q. lower (title trk) = p @ w @ q)
                      \<and> \<not> (\<exists>w \<in> set version_words. \<exists>p q. lower (source_title src) = p @ w @ q)
                   then 1 / 10 else 0),
                ac_missing_data_penalty =
                  (if \<forall>c \<in> set (album trk). is_space c then 5 / 100 else 0),
                ac_total_penalty =
                  (if (\<exists>w \<in> set version_words. \<exists>p q. lower (title trk) = p @ w @ q)
                      \<and> \<not> (\<exists>w \<in> set version_words. \<exists>p q. lower (source_title src) = p @ w @ q)
                   then 1 / 10 else 0)
                  + (if \<forall>c \<in> set (album trk). is_space c then 5 / 100 else 0),
                ac_service = svc\<rparr>])
       \<and> (\<not> (1 / 2 \<le> alt_similarity_of src trk \<and> alt_duration_ok (duration_of src trk)) \<longrightarrow>
            alt_candidates st' = alt_candidates st)
       \<and> exact_candidates st' = exact_candidates st"
proof -
  have entry: "alt_entry src svc trk =
      \<lparr>ac_track = trk,
       ac_similarity = alt_similarity_of src trk,
       ac_duration_diff = duration_diff (duration_of src trk),
       ac_version_penalty =
         (if (\<exists>w \<in> set version_words. \<exists>p q. lower (title trk) = p @ w @ q)
             \<and> \<not> (\<exists>w \<in> set version_words. \<exists>p q. lower (source_title src) = p @ w @ q)
          then 1 / 10 else 0),
       ac_missing_data_penalty = (if \<forall>c \<in> set (album trk). is_space c then 5 / 100 else 0),
       ac_total_penalty =
         (if (\<exists>w \<in> set version_words. \<exists>p q. lower (title trk) = p @ w @ q)
             \<and> \<not> (\<exists>w \<in> set version_words. \<exists>p q. lower (source_title src) = p @ w @ q)
          then 1 / 10 else 0)
         + (if \<forall>c \<in> set (album trk). is_space c then 5 / 100 else 0),
       ac_service = svc\<rparr>"
    unfolding alt_entry_def Let_def by (simp only: has_version_iff album_missing_iff)
  from classify_track_lists [OF assms(1)] assms(2) show ?thesis
    unfolding entry [symmetric] is_alt_def by simp
qed

text \<open>
  C4. Where the claim has a candidate classified as an alternative, the iteration raises: the
  source has no duration, so the duration block never runs, and line 525 reads the
  unassigned \<^verbatim>\<open>exact_duration_tolerance\<close>. The live version scores 2/3 on title and artist,
  below 0.75 with the album, and its alternative duration check holds.
\<close>

theorem alternative_candidate_raises:
  "exact_similarity_of (yellow_source\<lparr>source_duration_ms := None\<rparr>) yellow_live < 75 / 100
   \<and> 1 / 2 \<le> alt_similarity_of (yellow_source\<lparr>source_duration_ms := None\<rparr>) yellow_live
   \<and> alt_duration_ok (duration_of (yellow_source\<lparr>source_duration_ms := None\<rparr>) yellow_live)
   \<and> find_equivalent_links (yellow_source\<lparr>source_duration_ms := None\<rparr>) [yellow_live] [] []
       = Inl UnboundLocalError"
  by (simp add: run_eval classify_eval yellow_source_def yellow_live_def)

text \<open>
  C8. A video result carries no duration: the iteration raises and the candidate gets none of
  the three outcomes.
\<close>

theorem video_candidate_raises:
  "classify_track yellow_source ''youtube'' initial_state yellow_video = Inl UnboundLocalError
   \<and> find_equivalent_links yellow_source [] [] [yellow_video] = Inl UnboundLocalError"
  by (simp add: run_eval classify_eval yellow_source_def yellow_video_def)

end
